theory Spec2Isabelle
  imports Main
begin

section \<open>Strings and errors\<close>

text \<open>
  A Python \<open>str\<close> is a sequence of Unicode code points; a code point is modelled as an
  integer (the value of \<open>ord\<close>) and a string as the list of its code points, so \<open>len\<close> is \<open>length\<close>.
  String literals of the source are written \<open>lit ''...''\<close>, characters outside the
  printable range by their code points (10 is the newline, 34 the double quote).
\<close>

type_synonym str = "int list"

definition lit :: "string \<Rightarrow> str" where
  "lit s = map of_char s"

text \<open>The exceptions of the source that the model distinguishes.\<close>

datatype py_error =
    ValueError | TypeError | KeyError | JSONDecodeError | RecursionError | OSError | ServiceError

text \<open>\<open>sep.join(parts)\<close>\<close>

fun py_join :: "str \<Rightarrow> str list \<Rightarrow> str" where
  "py_join sep [] = []"
| "py_join sep [x] = x"
| "py_join sep (x # y # ys) = x @ sep @ py_join sep (y # ys)"

section \<open>Regular expressions of the \<open>re\<close> module\<close>

text \<open>
  Character classes of a \<open>str\<close> pattern without the ASCII flag. \<open>\s\<close> is the Unicode
  whitespace that \<open>str.isspace\<close> and \<open>str.strip\<close> use as well; \<open>\d\<close> is the Unicode
  decimal digits (category Nd, here of Unicode 15: 63 runs of ten digits, each given by its
  zero, and the mathematical digits U+1D7CE to U+1D7FF).
\<close>

definition nd_starts :: "int list" where
  "nd_starts = [0x0030, 0x0660, 0x06F0, 0x07C0, 0x0966, 0x09E6, 0x0A66, 0x0AE6, 0x0B66, 0x0BE6,
     0x0C66, 0x0CE6, 0x0D66, 0x0DE6, 0x0E50, 0x0ED0, 0x0F20, 0x1040, 0x1090, 0x17E0, 0x1810,
     0x1946, 0x19D0, 0x1A80, 0x1A90, 0x1B50, 0x1BB0, 0x1C40, 0x1C50, 0xA620, 0xA8D0, 0xA900,
     0xA9D0, 0xA9F0, 0xAA50, 0xABF0, 0xFF10, 0x104A0, 0x10D30, 0x11066, 0x110F0, 0x11136,
     0x111D0, 0x112F0, 0x11450, 0x114D0, 0x11650, 0x116C0, 0x11730, 0x118E0, 0x11950, 0x11C50,
     0x11D50, 0x11DA0, 0x11F50, 0x16A60, 0x16AC0, 0x16B50, 0x1E140, 0x1E2F0, 0x1E4F0, 0x1E950,
     0x1FBF0]"

definition is_digit :: "int \<Rightarrow> bool" where
  "is_digit c = (list_ex (\<lambda>z. z \<le> c \<and> c < z + 10) nd_starts \<or> (0x1D7CE \<le> c \<and> c \<le> 0x1D7FF))"

definition is_space :: "int \<Rightarrow> bool" where
  "is_space c = ((9 \<le> c \<and> c \<le> 13) \<or> (28 \<le> c \<and> c \<le> 32) \<or> c = 0x85 \<or> c = 0xA0
      \<or> c = 0x1680 \<or> (0x2000 \<le> c \<and> c \<le> 0x200A) \<or> c = 0x2028 \<or> c = 0x2029
      \<or> c = 0x202F \<or> c = 0x205F \<or> c = 0x3000)"

datatype cclass = Space | Digit | NonAscii | AnyChar | Char int

text \<open>
  \<open>Space\<close> is \<open>\s\<close>, \<open>Digit\<close> is \<open>\d\<close>, \<open>NonAscii\<close> is \<open>[^\x00-\x7F]\<close>,
  \<open>AnyChar\<close> is \<open>.\<close> under DOTALL, \<open>Char c\<close> is the literal character \<open>c\<close>.
\<close>

fun member :: "cclass \<Rightarrow> int \<Rightarrow> bool" where
  "member Space c = is_space c"
| "member Digit c = is_digit c"
| "member NonAscii c = (\<not> c \<le> 0x7F)"
| "member AnyChar c = True"
| "member (Char d) c = (c = d)"

text \<open>
  The patterns of the repository use: one character of a class (\<open>Cls\<close>), a greedy
  repetition of a class with a least count and no upper bound (\<open>Rep c 0\<close> is \<open>c*\<close>,
  \<open>Rep c 1\<close> is \<open>c+\<close>, \<open>Rep c 2\<close> is \<open>c{2,}\<close>), the lazy \<open>c*?\<close>, sequence,
  alternation, the greedy option \<open>(?:r)?\<close>, the capture group 1, and the anchors
  \<open>^\<close> and \<open>$\<close> under MULTILINE.
\<close>

datatype regex =
    Eps
  | Cls cclass
  | Rep cclass nat
  | Lazy cclass
  | Seq regex regex
  | Alt regex regex
  | Opt regex
  | Group regex
  | Bol
  | Eol

text \<open>
  A matcher state: the character before the current position (\<open>None\<close> at the start of
  the text), the text from the current position on, and what group 1 has captured.
\<close>

type_synonym mstate = "int option \<times> str \<times> str option"

definition adv :: "nat \<Rightarrow> mstate \<Rightarrow> mstate" where
  "adv k st = (case st of (p, s, g) \<Rightarrow> ((if k = 0 then p else Some (s ! (k - 1))), drop k s, g))"

text \<open>
  The backtracking matcher of \<open>re\<close>: \<open>ends r st\<close> lists, in the order in which the
  matcher tries them, the states in which a match of \<open>r\<close> that starts in \<open>st\<close> can end.
  A greedy repetition tries the longest run first, a lazy one the shortest; the match the
  module reports is the first of the list.
\<close>

fun ends :: "regex \<Rightarrow> mstate \<Rightarrow> mstate list" where
  "ends Eps st = [st]"
| "ends (Cls c) (p, s, g) =
     (case s of [] \<Rightarrow> [] | x # xs \<Rightarrow> if member c x then [(Some x, xs, g)] else [])"
| "ends (Rep c m) (p, s, g) =
     map (\<lambda>k. adv k (p, s, g)) (rev [m..<Suc (length (takeWhile (member c) s))])"
| "ends (Lazy c) (p, s, g) =
     map (\<lambda>k. adv k (p, s, g)) [0..<Suc (length (takeWhile (member c) s))]"
| "ends (Seq a b) st = concat (map (ends b) (ends a st))"
| "ends (Alt a b) st = ends a st @ ends b st"
| "ends (Opt a) st = ends a st @ [st]"
| "ends (Group a) (p, s, g) =
     map (\<lambda>(p', s', g'). (p', s', Some (take (length s - length s') s))) (ends a (p, s, g))"
| "ends Bol (p, s, g) = (if p = None \<or> p = Some 10 then [(p, s, g)] else [])"
| "ends Eol (p, s, g) =
     (case s of [] \<Rightarrow> [(p, s, g)] | x # xs \<Rightarrow> if x = 10 then [(p, s, g)] else [])"

definition seq :: "regex list \<Rightarrow> regex" where
  "seq rs = foldr Seq rs Eps"

definition chars :: "str \<Rightarrow> regex" where
  "chars s = seq (map (\<lambda>c. Cls (Char c)) s)"

text \<open>
  The match at one position. After an empty match \<open>re.sub\<close> looks at the same position
  again for a match that is not empty (\<open>must_advance\<close>).
\<close>

definition first_match :: "bool \<Rightarrow> regex \<Rightarrow> int option \<Rightarrow> str \<Rightarrow> mstate option" where
  "first_match must_advance r p s =
     (case filter (\<lambda>(p', s', g'). \<not> must_advance \<or> length s' < length s) (ends r (p, s, None)) of
        [] \<Rightarrow> None
      | st # _ \<Rightarrow> Some st)"

text \<open>\<open>re.search\<close>: the match at the leftmost position that has one.\<close>

fun re_search_from :: "regex \<Rightarrow> int option \<Rightarrow> str \<Rightarrow> mstate option" where
  "re_search_from r p [] = first_match False r p []"
| "re_search_from r p (x # xs) =
     (case first_match False r p (x # xs) of
        Some st \<Rightarrow> Some st
      | None \<Rightarrow> re_search_from r (Some x) xs)"

definition re_search :: "regex \<Rightarrow> str \<Rightarrow> mstate option" where
  "re_search r s = re_search_from r None s"

text \<open>
  \<open>re.sub(pattern, repl, text)\<close> for a replacement without group references: the
  matches are found from left to right, each search starting where the last match
  ended, and every match is replaced by \<open>repl\<close>.
\<close>

function re_sub_from :: "regex \<Rightarrow> str \<Rightarrow> bool \<Rightarrow> int option \<Rightarrow> str \<Rightarrow> str" where
  "re_sub_from r repl must_advance p s =
     (case first_match must_advance r p s of
        Some (p', s', g') \<Rightarrow>
          if length s' < length s then repl @ re_sub_from r repl False p' s'
          else if must_advance then
            (case s of [] \<Rightarrow> [] | x # xs \<Rightarrow> x # re_sub_from r repl False (Some x) xs)
          else repl @ re_sub_from r repl True p s
      | None \<Rightarrow> (case s of [] \<Rightarrow> [] | x # xs \<Rightarrow> x # re_sub_from r repl False (Some x) xs))"
  by pat_completeness auto
termination
  by (relation "measure (\<lambda>(r, repl, m, p, s). 2 * length s + (if m then 0 else 1))") auto

declare re_sub_from.simps [simp del]

definition re_sub :: "regex \<Rightarrow> str \<Rightarrow> str \<Rightarrow> str" where
  "re_sub r repl s = re_sub_from r repl False None s"

text \<open>\<open>text.strip()\<close>\<close>

definition py_strip :: "str \<Rightarrow> str" where
  "py_strip s = rev (dropWhile is_space (rev (dropWhile is_space s)))"

section \<open>src/text\_utils.py\<close>

text \<open>\<^verbatim>\<open>Page\s*\d+\s*of\s*\d+\<close>\<close>

definition PAGE_MARKER :: regex where
  "PAGE_MARKER = seq [chars (lit ''Page''), Rep Space 0, Rep Digit 1, Rep Space 0,
                      chars (lit ''of''), Rep Space 0, Rep Digit 1]"

text \<open>\<^verbatim>\<open>\n{2,}\<close>\<close>

definition BLANK_LINES :: regex where
  "BLANK_LINES = Rep (Char 10) 2"

text \<open>\<^verbatim>\<open>^\s*\d+\s*$\<close> with \<open>re.MULTILINE\<close>\<close>

definition ISOLATED_NUMBER :: regex where
  "ISOLATED_NUMBER = seq [Bol, Rep Space 0, Rep Digit 1, Rep Space 0, Eol]"

text \<open>\<^verbatim>\<open>[^\x00-\x7F]+\<close>\<close>

definition NON_ASCII :: regex where
  "NON_ASCII = Rep NonAscii 1"

text \<open>\<^verbatim>\<open>\s+\<close>\<close>

definition WHITESPACE :: regex where
  "WHITESPACE = Rep Space 1"

definition clean_text :: "str \<Rightarrow> str" where
  "clean_text text0 =
     (let text1 = re_sub PAGE_MARKER [] text0;
          text2 = re_sub BLANK_LINES [10] text1;
          text3 = re_sub ISOLATED_NUMBER [] text2;
          text4 = re_sub NON_ASCII [32] text3;
          text5 = re_sub WHITESPACE [32] text4
      in py_strip text5)"

text \<open>
  \<open>range(start, stop, step)\<close> for a positive step. The guard on \<open>step\<close> only makes the
  function total; \<open>chunk_text\<close> below never calls it with step 0.
\<close>

function py_range :: "nat \<Rightarrow> nat \<Rightarrow> nat \<Rightarrow> nat list" where
  "py_range start stop step =
     (if 0 < step \<and> start < stop then start # py_range (start + step) stop step else [])"
  by pat_completeness auto
termination
  by (relation "measure (\<lambda>(start, stop, step). stop - start)") auto

declare py_range.simps [simp del]

text \<open>The slice \<open>text[i:j]\<close> for \<open>0 \<le> i \<le> j\<close>; Python clamps both ends to \<open>len(text)\<close>.\<close>

definition py_slice :: "'a list \<Rightarrow> nat \<Rightarrow> nat \<Rightarrow> 'a list" where
  "py_slice xs i j = take (j - i) (drop i xs)"

text \<open>
  \<open>chunks = [text[i:i+chunk_size] for i in range(0, len(text), chunk_size)]\<close>.
  \<open>range\<close> raises ValueError for step 0 and is empty for a negative step.
\<close>

definition chunk_text :: "'a list \<Rightarrow> int \<Rightarrow> py_error + 'a list list" where
  "chunk_text text chunk_size =
     (if chunk_size = 0 then Inl ValueError
      else if chunk_size < 0 then Inr []
      else Inr (map (\<lambda>i. py_slice text i (i + nat chunk_size))
                    (py_range 0 (length text) (nat chunk_size))))"

text \<open>The default argument \<open>chunk_size = 6000\<close>.\<close>

definition default_chunk_size :: int where
  "default_chunk_size = 6000"

text \<open>The number of chunks is the length divided by the size, rounded up.\<close>

definition n_chunks :: "nat \<Rightarrow> nat \<Rightarrow> nat" where
  "n_chunks len sz = (len + sz - 1) div sz"

section \<open>JSON values, \<open>json.loads\<close> and \<open>json.dumps\<close>\<close>

text \<open>
  What \<open>json.loads\<close> returns: \<open>None\<close>, a bool, an int, a float, a str, a list or a
  dict. A float is kept as the text of its token (the claims never compute with one),
  a dict as the list of its items in insertion order, with distinct keys.
\<close>

datatype json =
    JNull
  | JBool bool
  | JInt int
  | JFloat str
  | JString str
  | JArray "json list"
  | JObject "(str \<times> json) list"

text \<open>\<open>d[k] = v\<close>, \<open>d.get(k)\<close> and the dict built from a list of items.\<close>

fun dict_set :: "'k \<Rightarrow> 'v \<Rightarrow> ('k \<times> 'v) list \<Rightarrow> ('k \<times> 'v) list" where
  "dict_set k v [] = [(k, v)]"
| "dict_set k v ((k', v') # d) = (if k = k' then (k, v) # d else (k', v') # dict_set k v d)"

fun dict_get :: "('k \<times> 'v) list \<Rightarrow> 'k \<Rightarrow> 'v option" where
  "dict_get [] k = None"
| "dict_get ((k', v) # d) k = (if k = k' then Some v else dict_get d k)"

definition dict_of_pairs :: "('k \<times> 'v) list \<Rightarrow> ('k \<times> 'v) list" where
  "dict_of_pairs kvs = foldl (\<lambda>d (k, v). dict_set k v d) [] kvs"

subsection \<open>The decoder\<close>

text \<open>
  The scanner of \<open>json.loads\<close> with its default arguments. Two limits of the
  interpreter decide what it raises. Every list and dict that the scanner enters is one
  more level of recursion, and entering one when the recursion limit leaves no level
  raises \<open>RecursionError\<close>; \<open>nesting_left\<close> is the number of levels that are left where
  \<open>json.loads\<close> is called. An int of more than \<open>int_max_str_digits\<close> digits raises a
  plain \<open>ValueError\<close> (the limit of \<open>sys.set_int_max_str_digits\<close>, 4300 unless changed;
  0 is no limit). Everything else that does not parse is a \<open>JSONDecodeError\<close>.
\<close>

record limits =
  nesting_left :: nat
  int_max_str_digits :: nat

definition json_ws :: "int \<Rightarrow> bool" where
  "json_ws c = (c = 32 \<or> c = 9 \<or> c = 10 \<or> c = 13)"

definition skip_ws :: "str \<Rightarrow> str" where
  "skip_ws s = dropWhile json_ws s"

definition hex_val :: "int \<Rightarrow> int option" where
  "hex_val c = (if 48 \<le> c \<and> c \<le> 57 then Some (c - 48)
                else if 97 \<le> c \<and> c \<le> 102 then Some (c - 87)
                else if 65 \<le> c \<and> c \<le> 70 then Some (c - 55)
                else None)"

definition hex4 :: "str \<Rightarrow> int option" where
  "hex4 s = (case map hex_val (take 4 s) of
               [Some a, Some b, Some c, Some d] \<Rightarrow> Some (((a * 16 + b) * 16 + c) * 16 + d)
             | _ \<Rightarrow> None)"

definition simple_escape :: "int \<Rightarrow> int option" where
  "simple_escape c = (if c = 34 \<or> c = 92 \<or> c = 47 then Some c
                      else if c = 98 then Some 8
                      else if c = 102 then Some 12
                      else if c = 110 then Some 10
                      else if c = 114 then Some 13
                      else if c = 116 then Some 9
                      else None)"

definition high_surrogate :: "int \<Rightarrow> bool" where
  "high_surrogate c = (0xD800 \<le> c \<and> c \<le> 0xDBFF)"

definition low_surrogate :: "int \<Rightarrow> bool" where
  "low_surrogate c = (0xDC00 \<le> c \<and> c \<le> 0xDFFF)"

definition join_surrogates :: "int \<Rightarrow> int \<Rightarrow> int" where
  "join_surrogates hi lo = 0x10000 + (hi - 0xD800) * 0x400 + (lo - 0xDC00)"

text \<open>
  The string after its opening quote: the decoded string and the text after the closing
  quote. A \<open>\uXXXX\<close> escape needs a character after its four digits; an escaped high
  surrogate followed by an escaped low surrogate is one code point.
\<close>

function scanstring :: "str \<Rightarrow> (str \<times> str) option" where
  "scanstring [] = None"
| "scanstring (c # s) =
     (if c = 34 then Some ([], s)
      else if c = 92 then
        (case s of
           [] \<Rightarrow> None
         | e # s1 \<Rightarrow>
             if e \<noteq> 117 then
               (case simple_escape e of
                  None \<Rightarrow> None
                | Some d \<Rightarrow> map_option (\<lambda>(t, r). (d # t, r)) (scanstring s1))
             else if length s1 < 5 then None
             else
               (case hex4 s1 of
                  None \<Rightarrow> None
                | Some u \<Rightarrow>
                    let s2 = drop 4 s1 in
                    if high_surrogate u \<and> 7 \<le> length s2 \<and> take 2 s2 = [92, 117] then
                      (case hex4 (drop 2 s2) of
                         None \<Rightarrow> None
                       | Some l \<Rightarrow>
                           if low_surrogate l
                           then map_option (\<lambda>(t, r). (join_surrogates u l # t, r))
                                  (scanstring (drop 6 s2))
                           else map_option (\<lambda>(t, r). (u # t, r)) (scanstring s2))
                    else map_option (\<lambda>(t, r). (u # t, r)) (scanstring s2)))
      else if c \<le> 31 then None
      else map_option (\<lambda>(t, r). (c # t, r)) (scanstring s))"
  by pat_completeness auto
termination
  by (relation "measure length") auto

declare scanstring.simps(2) [simp del]

definition ascii_digit :: "int \<Rightarrow> bool" where
  "ascii_digit c = (48 \<le> c \<and> c \<le> 57)"

definition digits_val :: "str \<Rightarrow> int" where
  "digits_val ds = foldl (\<lambda>n d. 10 * n + (d - 48)) 0 ds"

text \<open>
  The number token at the start of the text: whether it is a float, and its length.
  An integer part is \<open>0\<close> or starts with a digit from 1 to 9; a fraction and an exponent
  are taken only when they have a digit.
\<close>

definition match_number :: "str \<Rightarrow> (bool \<times> nat) option" where
  "match_number s =
     (let neg = (if take 1 s = [45] then 1 else 0);
          s1 = drop neg s;
          ds = takeWhile ascii_digit s1;
          ilen = (if take 1 s1 = [48] then 1 else length ds)
      in if ilen = 0 then None
         else
           let s2 = drop ilen s1;
               fs = takeWhile ascii_digit (drop 1 s2);
               flen = (if take 1 s2 = [46] \<and> fs \<noteq> [] then 1 + length fs else 0);
               s3 = drop flen s2;
               sg = (if take 1 (drop 1 s3) = [43] \<or> take 1 (drop 1 s3) = [45] then 1 else 0);
               es = takeWhile ascii_digit (drop (1 + sg) s3);
               elen = (if (take 1 s3 = [101] \<or> take 1 s3 = [69]) \<and> es \<noteq> []
                       then 1 + sg + length es else 0)
           in Some (0 < flen \<or> 0 < elen, neg + ilen + flen + elen))"

definition parse_number :: "limits \<Rightarrow> str \<Rightarrow> py_error + (json \<times> str)" where
  "parse_number lim s =
     (case match_number s of
        None \<Rightarrow> Inl JSONDecodeError
      | Some (is_float, n) \<Rightarrow>
          if is_float then Inr (JFloat (take n s), drop n s)
          else
            let neg = (if take 1 s = [45] then 1 else 0) in
            if 0 < int_max_str_digits lim \<and> int_max_str_digits lim < n - neg
            then Inl ValueError
            else if neg = 1
            then Inr (JInt (- digits_val (take (n - 1) (drop 1 s))), drop n s)
            else Inr (JInt (digits_val (take n s)), drop n s))"

definition starts_with :: "str \<Rightarrow> str \<Rightarrow> bool" where
  "starts_with s pre = (take (length pre) s = pre)"

lemma dropWhile_Cons_length: "dropWhile P xs = y # ys \<Longrightarrow> length ys < length xs"
  using length_dropWhile_le [of P xs] by simp

text \<open>
  One value, the elements of a list after \<open>[\<close>, and the items of a dict after \<open>{\<close>,
  each with the text that follows; \<open>d\<close> is the number of levels of nesting that are
  left. The first failure in reading order is the one that is raised. The tests on
  lengths are always true (a value is never empty); they are what makes the recursion
  well founded.
\<close>

function parse_value :: "limits \<Rightarrow> nat \<Rightarrow> str \<Rightarrow> py_error + (json \<times> str)"
     and parse_elems :: "limits \<Rightarrow> nat \<Rightarrow> str \<Rightarrow> py_error + (json list \<times> str)"
     and parse_members :: "limits \<Rightarrow> nat \<Rightarrow> str \<Rightarrow> py_error + ((str \<times> json) list \<times> str)"
where
  "parse_value lim d s =
     (case s of
        [] \<Rightarrow> Inl JSONDecodeError
      | c # cs \<Rightarrow>
          if c = 34 then
            (case scanstring cs of
               None \<Rightarrow> Inl JSONDecodeError
             | Some (t, r) \<Rightarrow> Inr (JString t, r))
          else if c = 123 then
            (if d = 0 then Inl RecursionError
             else case skip_ws cs of
               [] \<Rightarrow> Inl JSONDecodeError
             | x # r \<Rightarrow>
                 if x = 125 then Inr (JObject [], r)
                 else (case parse_members lim (d - 1) (skip_ws cs) of
                         Inl err \<Rightarrow> Inl err
                       | Inr (kvs, r') \<Rightarrow> Inr (JObject (dict_of_pairs kvs), r')))
          else if c = 91 then
            (if d = 0 then Inl RecursionError
             else case skip_ws cs of
               [] \<Rightarrow> Inl JSONDecodeError
             | x # r \<Rightarrow>
                 if x = 93 then Inr (JArray [], r)
                 else (case parse_elems lim (d - 1) (skip_ws cs) of
                         Inl err \<Rightarrow> Inl err
                       | Inr (vs, r') \<Rightarrow> Inr (JArray vs, r')))
          else if starts_with s (lit ''null'') then Inr (JNull, drop 4 s)
          else if starts_with s (lit ''true'') then Inr (JBool True, drop 4 s)
          else if starts_with s (lit ''false'') then Inr (JBool False, drop 5 s)
          else if starts_with s (lit ''NaN'') then Inr (JFloat (lit ''NaN''), drop 3 s)
          else if starts_with s (lit ''Infinity'') then Inr (JFloat (lit ''Infinity''), drop 8 s)
          else if starts_with s (lit ''-Infinity'') then Inr (JFloat (lit ''-Infinity''), drop 9 s)
          else parse_number lim s)"
| "parse_elems lim d s =
     (case parse_value lim d s of
        Inl err \<Rightarrow> Inl err
      | Inr (v, r) \<Rightarrow>
          (case skip_ws r of
             [] \<Rightarrow> Inl JSONDecodeError
           | x # r1 \<Rightarrow>
               if x = 93 then Inr ([v], r1)
               else if x = 44 then
                 (let r2 = skip_ws r1 in
                  if length r2 < length s
                  then (case parse_elems lim d r2 of
                          Inl err \<Rightarrow> Inl err
                        | Inr (vs, r') \<Rightarrow> Inr (v # vs, r'))
                  else Inl JSONDecodeError)
               else Inl JSONDecodeError))"
| "parse_members lim d s =
     (case s of
        [] \<Rightarrow> Inl JSONDecodeError
      | q # s0 \<Rightarrow>
          if q \<noteq> 34 then Inl JSONDecodeError
          else
            (case scanstring s0 of
               None \<Rightarrow> Inl JSONDecodeError
             | Some (k, r) \<Rightarrow>
                 (case skip_ws r of
                    [] \<Rightarrow> Inl JSONDecodeError
                  | colon # r0 \<Rightarrow>
                      if colon \<noteq> 58 then Inl JSONDecodeError
                      else
                        (let r1 = skip_ws r0 in
                         if length r1 < length s then
                           (case parse_value lim d r1 of
                              Inl err \<Rightarrow> Inl err
                            | Inr (v, r2) \<Rightarrow>
                                (case skip_ws r2 of
                                   [] \<Rightarrow> Inl JSONDecodeError
                                 | x # r3 \<Rightarrow>
                                     if x = 125 then Inr ([(k, v)], r3)
                                     else if x = 44 then
                                       (let r4 = skip_ws r3 in
                                        if length r4 < length s
                                        then (case parse_members lim d r4 of
                                                Inl err \<Rightarrow> Inl err
                                              | Inr (kvs, r') \<Rightarrow> Inr ((k, v) # kvs, r'))
                                        else Inl JSONDecodeError)
                                     else Inl JSONDecodeError))
                         else Inl JSONDecodeError))))"
  by pat_completeness auto
termination
  apply (relation "measure (\<lambda>x. case x of Inl (lim, d, s) \<Rightarrow> 2 * length s
                                   | Inr (Inl (lim, d, s)) \<Rightarrow> 2 * length s + 1
                                   | Inr (Inr (lim, d, s)) \<Rightarrow> 2 * length s + 1)")
       apply (auto simp: skip_ws_def dest: dropWhile_Cons_length)
  done

declare parse_value.simps [simp del] parse_elems.simps [simp del] parse_members.simps [simp del]

text \<open>
  \<open>json.loads(s)\<close>: a byte order mark is refused, whitespace may surround the value,
  and nothing else may follow it.
\<close>

definition json_loads :: "limits \<Rightarrow> str \<Rightarrow> py_error + json" where
  "json_loads lim s =
     (if take 1 s = [0xFEFF] then Inl JSONDecodeError
      else case parse_value lim (nesting_left lim) (skip_ws s) of
             Inl err \<Rightarrow> Inl err
           | Inr (v, r) \<Rightarrow> if skip_ws r = [] then Inr v else Inl JSONDecodeError)"

subsection \<open>The encoder\<close>

text \<open>
  \<open>json.dumps(obj, indent=2)\<close> with the default \<open>ensure_ascii\<close>: everything outside
  the printable ASCII range is escaped, a code point above U+FFFF as a surrogate pair.
  A float is written as the token it was read from; Python writes the \<open>repr\<close> of the
  float, which can be spelt differently (\<open>1.50\<close> is written \<open>1.5\<close>), so for a float
  the text is only as long as the value is the same.
\<close>

definition hex_digit :: "int \<Rightarrow> int" where
  "hex_digit d = (if d < 10 then 48 + d else 87 + d)"

definition u_escape :: "int \<Rightarrow> str" where
  "u_escape n = [92, 117, hex_digit (n div 4096 mod 16), hex_digit (n div 256 mod 16),
                 hex_digit (n div 16 mod 16), hex_digit (n mod 16)]"

definition encode_char :: "int \<Rightarrow> str" where
  "encode_char c =
     (if c = 34 then [92, 34]
      else if c = 92 then [92, 92]
      else if c = 10 then [92, 110]
      else if c = 13 then [92, 114]
      else if c = 9 then [92, 116]
      else if c = 8 then [92, 98]
      else if c = 12 then [92, 102]
      else if 32 \<le> c \<and> c \<le> 126 then [c]
      else if c < 0x10000 then u_escape c
      else u_escape (0xD800 + (c - 0x10000) div 0x400 mod 0x400)
           @ u_escape (0xDC00 + (c - 0x10000) mod 0x400))"

definition encode_string :: "str \<Rightarrow> str" where
  "encode_string s = [34] @ concat (map encode_char s) @ [34]"

function show_nat :: "nat \<Rightarrow> str" where
  "show_nat n = (if n < 10 then [48 + int n] else show_nat (n div 10) @ [48 + int (n mod 10)])"
  by pat_completeness auto
termination
  by (relation "measure id") auto

declare show_nat.simps [simp del]

definition show_int :: "int \<Rightarrow> str" where
  "show_int i = (if i < 0 then 45 # show_nat (nat (- i)) else show_nat (nat i))"

definition newline_indent :: "nat \<Rightarrow> str" where
  "newline_indent level = 10 # replicate (2 * level) 32"

fun json_dumps_at :: "nat \<Rightarrow> json \<Rightarrow> str" where
  "json_dumps_at level JNull = lit ''null''"
| "json_dumps_at level (JBool b) = (if b then lit ''true'' else lit ''false'')"
| "json_dumps_at level (JInt i) = show_int i"
| "json_dumps_at level (JFloat token) = token"
| "json_dumps_at level (JString s) = encode_string s"
| "json_dumps_at level (JArray vs) =
     (if vs = [] then lit ''[]''
      else [91] @ newline_indent (Suc level)
           @ py_join (44 # newline_indent (Suc level)) (map (json_dumps_at (Suc level)) vs)
           @ newline_indent level @ [93])"
| "json_dumps_at level (JObject kvs) =
     (if kvs = [] then lit ''{}''
      else [123] @ newline_indent (Suc level)
           @ py_join (44 # newline_indent (Suc level))
               (map (\<lambda>kv. encode_string (fst kv) @ lit '': '' @ json_dumps_at (Suc level) (snd kv)) kvs)
           @ newline_indent level @ [125])"

definition json_dumps :: "json \<Rightarrow> str" where
  "json_dumps v = json_dumps_at 0 v"

section \<open>Prompts\<close>

text \<open>
  Each prompt is an f-string: fixed lines around the text that is put in. The lines
  are listed one by one and joined by newlines.
\<close>

definition summarize_prompt :: "str \<Rightarrow> str" where
  "summarize_prompt chunk =
     py_join [10]
       [[],
        lit ''        Summarize the following text in 3'' @ [8211] @ lit ''4 bullet points:'',
        lit ''        '',
        lit ''        '']
     @ chunk @
     py_join [10]
       [[],
        lit ''        '']"

definition combine_prompt :: "str \<Rightarrow> str" where
  "combine_prompt combined_text =
     py_join [10]
       [[],
        lit ''        Using these sub-summaries, create one final summary (5'' @ [8211] @ lit ''10 bullet points) covering:'',
        lit ''        - Purpose'',
        lit ''        - Definitions'',
        lit ''        - Eligibility'',
        lit ''        - Obligations'',
        lit ''        - Enforcement'',
        lit ''        '',
        lit ''        Sub-summaries:'',
        lit ''        '']
     @ combined_text @
     py_join [10]
       [[],
        lit ''        '']"

text \<open>The JSON format that the prompt of the section extractor asks for.\<close>

definition sections_format :: "str list" where
  "sections_format =
     [lit ''        {'',
      lit ''          '' @ [34] @ lit ''definitions'' @ [34] @ lit '': '' @ [34] @ lit ''...'' @ [34] @ lit '','',
      lit ''          '' @ [34] @ lit ''obligations'' @ [34] @ lit '': '' @ [34] @ lit ''...'' @ [34] @ lit '','',
      lit ''          '' @ [34] @ lit ''responsibilities'' @ [34] @ lit '': '' @ [34] @ lit ''...'' @ [34] @ lit '','',
      lit ''          '' @ [34] @ lit ''eligibility'' @ [34] @ lit '': '' @ [34] @ lit ''...'' @ [34] @ lit '','',
      lit ''          '' @ [34] @ lit ''payments'' @ [34] @ lit '': '' @ [34] @ lit ''...'' @ [34] @ lit '','',
      lit ''          '' @ [34] @ lit ''penalties'' @ [34] @ lit '': '' @ [34] @ lit ''...'' @ [34] @ lit '','',
      lit ''          '' @ [34] @ lit ''record_keepin'' @ [34] @ lit '': '' @ [34] @ lit ''...'' @ [34],
      lit ''        }'']"

definition sections_prompt :: "str \<Rightarrow> str" where
  "sections_prompt text =
     py_join [10]
       ([[],
        lit ''        Extract the following from the Act text:'',
        lit ''        '',
        lit ''        - Definitions'',
        lit ''        - Obligations'',
        lit ''        - Responsibilities'',
        lit ''        - Eligibility'',
        lit ''        - Payments'',
        lit ''        - Penalties'',
        lit ''        - Record-keeping'',
        lit ''        '',
        lit ''        Return JSON exactly in this format:'']
        @ sections_format @
        [lit ''        '',
         lit ''        Act text:'',
         lit ''        ''])
     @ text @
     py_join [10]
       [[],
        lit ''        '']"

definition rules_prompt :: "str \<Rightarrow> str" where
  "rules_prompt text =
     py_join [10]
       [[],
        lit ''        Analyze the following legal document/Act text and check if it follows these 6 specific rules:'',
        lit ''        '',
        lit ''        1. Act must define key terms'',
        lit ''        2. Act must specify eligibility criteria'',
        lit ''        3. Act must specify what the authority (government) must do'',
        lit ''        4. Act must list penalties or enforcement methods'',
        lit ''        5. Act must explain how to calculate payments'',
        lit ''        6. Act must require records or reporting'',
        lit ''        '',
        lit ''        For each rule, determine if it '' @ [39] @ lit ''passes'' @ [39] @ lit '' or '' @ [39] @ lit ''fails'' @ [39] @ lit '', extract the specific text snippet (evidence) that proves it, and give a confidence score (0-100).'',
        lit ''        '',
        lit ''        Return the results as a JSON array exactly in this format:'',
        lit ''        ['',
        lit ''          {'',
        lit ''            '' @ [34] @ lit ''rule'' @ [34] @ lit '': '' @ [34] @ lit ''Act must define key terms'' @ [34] @ lit '','',
        lit ''            '' @ [34] @ lit ''status'' @ [34] @ lit '': '' @ [34] @ lit ''pass'' @ [34] @ lit '','',
        lit ''            '' @ [34] @ lit ''evidence'' @ [34] @ lit '': '' @ [34] @ lit ''Section 2 - Definitions: '' @ [39] @ lit ''In this Act, unless the context otherwise requires...'' @ [39, 34] @ lit '','',
        lit ''            '' @ [34] @ lit ''confidence'' @ [34] @ lit '': 95'',
        lit ''          },'',
        lit ''          {'',
        lit ''            '' @ [34] @ lit ''rule'' @ [34] @ lit '': '' @ [34] @ lit ''Act must specify eligibility criteria'' @ [34] @ lit '','',
        lit ''            '' @ [34] @ lit ''status'' @ [34] @ lit '': '' @ [34] @ lit ''pass'' @ [34] @ lit '', '',
        lit ''            '' @ [34] @ lit ''evidence'' @ [34] @ lit '': '' @ [34] @ lit ''Section 4 - Eligibility: '' @ [39] @ lit ''A person is eligible if they are over 18...'' @ [39, 34] @ lit '','',
        lit ''            '' @ [34] @ lit ''confidence'' @ [34] @ lit '': 90'',
        lit ''          }'',
        lit ''          // ... repeat for all 6 rules'',
        lit ''        ]'',
        lit ''        '',
        lit ''        Legal document/Act text:'',
        lit ''        '']
     @ text @
     py_join [10]
       [[],
        lit ''        '']"

section \<open>src/rule\_checker.py and src/section\_extractor.py: reading the model's response\<close>

text \<open>
  \<^verbatim>\<open>```(?:json)?\s*({.*?}|\[.*?\])\s*```\<close> with \<open>re.DOTALL\<close> (96 is the backquote,
  123 and 125 the braces, 91 and 93 the brackets)
\<close>

definition RULE_FENCE :: regex where
  "RULE_FENCE = seq [chars [96, 96, 96], Opt (chars (lit ''json'')), Rep Space 0,
                     Group (Alt (seq [Cls (Char 123), Lazy AnyChar, Cls (Char 125)])
                                (seq [Cls (Char 91), Lazy AnyChar, Cls (Char 93)])),
                     Rep Space 0, chars [96, 96, 96]]"

text \<open>\<^verbatim>\<open>```(?:json)?\s*({.*?})\s*```\<close> with \<open>re.DOTALL\<close>\<close>

definition SECTION_FENCE :: regex where
  "SECTION_FENCE = seq [chars [96, 96, 96], Opt (chars (lit ''json'')), Rep Space 0,
                        Group (seq [Cls (Char 123), Lazy AnyChar, Cls (Char 125)]),
                        Rep Space 0, chars [96, 96, 96]]"

text \<open>
  \<open>json_match = re.search(fence, response_text); if json_match: response_text =
  json_match.group(1)\<close>: the text that is handed to \<open>json.loads\<close>. Group 1 takes part in
  every match of the two patterns.
\<close>

definition fenced_json :: "regex \<Rightarrow> str \<Rightarrow> str" where
  "fenced_json fence response_text =
     (case re_search fence response_text of
        None \<Rightarrow> response_text
      | Some (p, s, g) \<Rightarrow> (case g of Some t \<Rightarrow> t | None \<Rightarrow> response_text))"

definition LEGAL_DOCUMENT_RULES :: "str list" where
  "LEGAL_DOCUMENT_RULES =
     [lit ''Act must define key terms'',
      lit ''Act must specify eligibility criteria'',
      lit ''Act must specify what the authority (government) must do'',
      lit ''Act must list penalties or enforcement methods'',
      lit ''Act must explain how to calculate payments'',
      lit ''Act must require records or reporting'']"

definition create_default_rule_checks :: json where
  "create_default_rule_checks =
     JArray (map (\<lambda>rule. JObject [(lit ''rule'', JString rule),
                                      (lit ''status'', JString (lit ''fail'')),
                                      (lit ''evidence'', JString (lit ''Could not process'')),
                                      (lit ''confidence'', JInt 0)])
                 LEGAL_DOCUMENT_RULES)"

definition is_list :: "json \<Rightarrow> bool" where
  "is_list v = (case v of JArray vs \<Rightarrow> True | _ \<Rightarrow> False)"

text \<open>
  \<open>apply_rule_checks\<close> from the response of the model on. Only \<open>json.JSONDecodeError\<close>
  is caught; any other exception of \<open>json.loads\<close> is raised to the caller.
\<close>

definition rule_checks_of_response :: "limits \<Rightarrow> str \<Rightarrow> py_error + json" where
  "rule_checks_of_response lim response_text =
     (case json_loads lim (fenced_json RULE_FENCE response_text) of
        Inr result \<Rightarrow> if is_list result then Inr result else Inr create_default_rule_checks
      | Inl err \<Rightarrow> if err = JSONDecodeError then Inr create_default_rule_checks else Inl err)"

definition default_sections :: json where
  "default_sections =
     JObject [(lit ''definitions'', JString []),
              (lit ''obligations'', JString []),
              (lit ''responsibilities'', JString []),
              (lit ''eligibility'', JString []),
              (lit ''payments'', JString []),
              (lit ''penalties'', JString []),
              (lit ''record_keeping'', JString [])]"

text \<open>
  \<open>extract_sections\<close> from the response of the model on. Only \<open>json.JSONDecodeError\<close>
  is caught; any other exception of \<open>json.loads\<close> is raised to the caller.
\<close>

definition sections_of_response :: "limits \<Rightarrow> str \<Rightarrow> py_error + json" where
  "sections_of_response lim response_text =
     (case json_loads lim (fenced_json SECTION_FENCE response_text) of
        Inr result \<Rightarrow> Inr result
      | Inl err \<Rightarrow> if err = JSONDecodeError then Inr default_sections else Inl err)"

section \<open>The world: files, the model, the log\<close>

text \<open>
  What a path names: a text file with its content, a file whose bytes do not decode as
  text (\<open>read\<close> raises), or something that \<open>open\<close> refuses (a directory, a file without
  permission). \<open>os.path.exists\<close> is true for all three.
\<close>

datatype fs_entry = File str | Binary | Blocked

text \<open>
  The log: the methods of the agent that a run enters, with their arguments, and the
  prompts it sends to the model (\<open>generate_content\<close>), in order.
\<close>

datatype event =
    Summarize_Chunks "str list"
  | Export_Chunk_Summaries json str
  | Combine_Summaries json
  | Extract_Sections str
  | Apply_Rule_Checks str
  | Export_Json str
  | Generate_Content str

record world =
  files :: "str \<Rightarrow> fs_entry option"
  log :: "event list"

text \<open>
  What lies outside the repository: the text PyMuPDF extracts from the PDF at a path
  (or its failure), and the text of the model's response to a prompt (or the failure of
  the call), which may depend on how many calls came before.
\<close>

record env =
  pdf_text :: "str \<Rightarrow> py_error + str"
  reply :: "nat \<Rightarrow> str \<Rightarrow> py_error + str"
  cache_limits :: limits
  sections_limits :: limits
  rules_limits :: limits

text \<open>
  The three \<open>limits\<close> are those of the interpreter where \<open>json.load\<close> reads the cache,
  where \<open>extract_sections\<close> parses and where \<open>apply_rule_checks\<close> parses.
\<close>

text \<open>A step returns a value or raises, and leaves a world.\<close>

type_synonym 'a io = "world \<Rightarrow> (py_error + 'a) \<times> world"

definition ret :: "'a \<Rightarrow> 'a io" where
  "ret x w = (Inr x, w)"

definition raise :: "py_error \<Rightarrow> 'a io" where
  "raise e w = (Inl e, w)"

definition bind :: "'a io \<Rightarrow> ('a \<Rightarrow> 'b io) \<Rightarrow> 'b io" where
  "bind m f w = (case m w of (Inl e, w') \<Rightarrow> (Inl e, w') | (Inr x, w') \<Rightarrow> f x w')"

definition log_event :: "event \<Rightarrow> unit io" where
  "log_event ev w = (Inr (), w\<lparr>log := log w @ [ev]\<rparr>)"

definition is_generate :: "event \<Rightarrow> bool" where
  "is_generate ev = (case ev of Generate_Content p \<Rightarrow> True | _ \<Rightarrow> False)"

definition n_generated :: "world \<Rightarrow> nat" where
  "n_generated w = length (filter is_generate (log w))"

text \<open>\<open>self.model.generate_content(prompt)\<close> and the \<open>response.text\<close> it gives.\<close>

definition generate_content :: "env \<Rightarrow> str \<Rightarrow> str io" where
  "generate_content e prompt w =
     (reply e (n_generated w) prompt, w\<lparr>log := log w @ [Generate_Content prompt]\<rparr>)"

text \<open>\<open>with open(path, 'w') as f: json.dump(output, f, indent=2)\<close>\<close>

definition write_json :: "str \<Rightarrow> json \<Rightarrow> unit io" where
  "write_json path output w =
     (case files w path of
        Some Blocked \<Rightarrow> (Inl OSError, w)
      | _ \<Rightarrow> (Inr (), w\<lparr>files := (files w)(path \<mapsto> File (json_dumps output))\<rparr>))"

section \<open>src/summarizer.py\<close>

text \<open>\<open>result = response.text if response.text else ""\<close> is \<open>response.text\<close>.\<close>

definition summarize_chunk :: "env \<Rightarrow> str \<Rightarrow> str io" where
  "summarize_chunk e chunk = generate_content e (summarize_prompt chunk)"

fun summarize_chunks :: "env \<Rightarrow> str list \<Rightarrow> str list io" where
  "summarize_chunks e [] = ret []"
| "summarize_chunks e (chunk # chunks) =
     bind (summarize_chunk e chunk) (\<lambda>summary.
     bind (summarize_chunks e chunks) (\<lambda>summaries.
     ret (summary # summaries)))"

text \<open>
  \<open>"\n\n".join(chunk_summaries)\<close> on what the cache may hold: a list must hold strings
  only, a string is joined character by character, a dict by its keys.
\<close>

definition as_string :: "json \<Rightarrow> str option" where
  "as_string v = (case v of JString s \<Rightarrow> Some s | _ \<Rightarrow> None)"

definition join_parts :: "json \<Rightarrow> py_error + str list" where
  "join_parts v =
     (case v of
        JArray vs \<Rightarrow> if list_all (\<lambda>x. as_string x \<noteq> None) vs
                       then Inr (map (\<lambda>x. the (as_string x)) vs) else Inl TypeError
      | JString s \<Rightarrow> Inr (map (\<lambda>c. [c]) s)
      | JObject kvs \<Rightarrow> Inr (map fst kvs)
      | _ \<Rightarrow> Inl TypeError)"

definition combine_summaries :: "env \<Rightarrow> json \<Rightarrow> str io" where
  "combine_summaries e chunk_summaries =
     (case join_parts chunk_summaries of
        Inl err \<Rightarrow> raise err
      | Inr parts \<Rightarrow> generate_content e (combine_prompt (py_join [10, 10] parts)))"

section \<open>src/section\_extractor.py, src/rule\_checker.py, src/json\_exporter.py\<close>

definition extract_sections :: "env \<Rightarrow> str \<Rightarrow> json io" where
  "extract_sections e text =
     bind (generate_content e (sections_prompt text)) (\<lambda>response_text.
     (\<lambda>w. (sections_of_response (sections_limits e) response_text, w)))"

definition apply_rule_checks :: "env \<Rightarrow> str \<Rightarrow> json io" where
  "apply_rule_checks e text =
     bind (generate_content e (rules_prompt text)) (\<lambda>response_text.
     (\<lambda>w. (rule_checks_of_response (rules_limits e) response_text, w)))"

definition export_json :: "str \<Rightarrow> json \<Rightarrow> json \<Rightarrow> str \<Rightarrow> unit io" where
  "export_json summary sections rule_checks path =
     write_json path (JObject [(lit ''summary'', JString summary),
                               (lit ''sections'', sections),
                               (lit ''rule_checks'', rule_checks)])"

definition export_chunk_summaries :: "json \<Rightarrow> str \<Rightarrow> unit io" where
  "export_chunk_summaries summaries path =
     write_json path (JObject [(lit ''chunk_summaries'', summaries)])"

section \<open>src/agent.py\<close>

text \<open>
  \<open>x in data\<close>, \<open>data[x]\<close> and \<open>len(v)\<close> for a string \<open>x\<close> and what \<open>json.load\<close> can
  return.
\<close>

fun is_substring :: "str \<Rightarrow> str \<Rightarrow> bool" where
  "is_substring x [] = (x = [])"
| "is_substring x (c # cs) = (take (length x) (c # cs) = x \<or> is_substring x cs)"

definition py_contains :: "str \<Rightarrow> json \<Rightarrow> py_error + bool" where
  "py_contains x data =
     (case data of
        JObject d \<Rightarrow> Inr (dict_get d x \<noteq> None)
      | JArray vs \<Rightarrow> Inr (JString x \<in> set vs)
      | JString s \<Rightarrow> Inr (is_substring x s)
      | _ \<Rightarrow> Inl TypeError)"

definition py_getitem :: "json \<Rightarrow> str \<Rightarrow> py_error + json" where
  "py_getitem data x =
     (case data of
        JObject d \<Rightarrow> (case dict_get d x of Some v \<Rightarrow> Inr v | None \<Rightarrow> Inl KeyError)
      | _ \<Rightarrow> Inl TypeError)"

definition py_len :: "json \<Rightarrow> py_error + nat" where
  "py_len v =
     (case v of
        JArray vs \<Rightarrow> Inr (length vs)
      | JString s \<Rightarrow> Inr (length s)
      | JObject d \<Rightarrow> Inr (length d)
      | _ \<Rightarrow> Inl TypeError)"

text \<open>
  The body of the \<open>try\<close> of \<open>load_existing_chunk_summaries\<close>, from the parsed data on:
  \<open>Inr (Some v)\<close> is \<open>return v\<close>, \<open>Inr None\<close> is leaving the \<open>if\<close> without a return.
  The argument of the log message, \<open>len(data["chunk_summaries"])\<close>, is computed before
  the return.
\<close>

definition cached_field :: "json \<Rightarrow> py_error + json option" where
  "cached_field data =
     (case py_contains (lit ''chunk_summaries'') data of
        Inl err \<Rightarrow> Inl err
      | Inr False \<Rightarrow> Inr None
      | Inr True \<Rightarrow>
          (case py_getitem data (lit ''chunk_summaries'') of
             Inl err \<Rightarrow> Inl err
           | Inr v \<Rightarrow> (case py_len v of Inl err \<Rightarrow> Inl err | Inr n \<Rightarrow> Inr (Some v))))"

text \<open>
  \<open>load_existing_chunk_summaries\<close>: \<open>None\<close> when the path does not exist; every
  exception of opening, reading, parsing and looking up is caught and gives \<open>None\<close>.
\<close>

definition load_existing_chunk_summaries :: "limits \<Rightarrow> world \<Rightarrow> str \<Rightarrow> json option" where
  "load_existing_chunk_summaries lim w path =
     (case files w path of
        None \<Rightarrow> None
      | Some Blocked \<Rightarrow> None
      | Some Binary \<Rightarrow> None
      | Some (File content) \<Rightarrow>
          (case json_loads lim content of
             Inl err \<Rightarrow> None
           | Inr data \<Rightarrow> (case cached_field data of Inl err \<Rightarrow> None | Inr r \<Rightarrow> r)))"

text \<open>The default argument \<open>path = "chunk_summaries.json"\<close>.\<close>

definition cache_path :: str where
  "cache_path = lit ''chunk_summaries.json''"

text \<open>The dict that \<open>process_legislation\<close> returns.\<close>

record results =
  summary :: str
  sections :: json
  rule_checks :: json
  chunk_summaries :: json

text \<open>\<open>chunk_text(cleaned_text)\<close> with the default size, which is not 0.\<close>

definition chunks_of :: "str \<Rightarrow> str list" where
  "chunks_of cleaned_text =
     (case chunk_text cleaned_text default_chunk_size of Inr chunks \<Rightarrow> chunks | Inl err \<Rightarrow> [])"

definition process_legislation :: "env \<Rightarrow> str \<Rightarrow> str \<Rightarrow> results io" where
  "process_legislation e pdf_path output_path =
     bind (\<lambda>w. (pdf_text e pdf_path, w)) (\<lambda>raw_text.
     let cleaned_text = clean_text raw_text;
         chunks = chunks_of cleaned_text
     in
     bind (\<lambda>w. case load_existing_chunk_summaries (cache_limits e) w cache_path of
                  None \<Rightarrow>
                    bind (log_event (Summarize_Chunks chunks)) (\<lambda>_.
                    bind (summarize_chunks e chunks) (\<lambda>summaries.
                    bind (log_event (Export_Chunk_Summaries (JArray (map JString summaries)) cache_path)) (\<lambda>_.
                    bind (export_chunk_summaries (JArray (map JString summaries)) cache_path) (\<lambda>_.
                    ret (JArray (map JString summaries)))))) w
                | Some cached \<Rightarrow> ret cached w) (\<lambda>chunk_summaries.
     bind (log_event (Combine_Summaries chunk_summaries)) (\<lambda>_.
     bind (combine_summaries e chunk_summaries) (\<lambda>final_summary.
     bind (log_event (Extract_Sections cleaned_text)) (\<lambda>_.
     bind (extract_sections e cleaned_text) (\<lambda>sections.
     bind (log_event (Apply_Rule_Checks cleaned_text)) (\<lambda>_.
     bind (apply_rule_checks e cleaned_text) (\<lambda>rule_checks.
     bind (log_event (Export_Json output_path)) (\<lambda>_.
     bind (export_json final_summary sections rule_checks output_path) (\<lambda>_.
     ret \<lparr>summary = final_summary, sections = sections, rule_checks = rule_checks,
          chunk_summaries = chunk_summaries\<rparr>))))))))))"

section \<open>Example inputs\<close>

text \<open>
  The cache file of the specification, \<open>{"chunk_summaries": ["a","b"]}\<close>, a file of
  plain text, and a JSON file without the field.
\<close>

definition cache_ab :: str where
  "cache_ab = lit ''{'' @ [34] @ lit ''chunk_summaries'' @ [34] @ lit '': [''
              @ [34] @ lit ''a'' @ [34] @ lit '','' @ [34] @ lit ''b'' @ [34] @ lit '']}''"

definition world_with :: "str \<Rightarrow> world" where
  "world_with content = \<lparr>files = [cache_path \<mapsto> File content], log = []\<rparr>"

text \<open>
  The part of \<open>process_legislation\<close> that follows the choice between the cache and the
  first pass, from \<open>combine_summaries\<close> to the returned dict, with the list of the
  events that it logs when every call succeeds.
\<close>

definition finish :: "env \<Rightarrow> str \<Rightarrow> str \<Rightarrow> json \<Rightarrow> results io" where
  "finish e cleaned_text output_path cs =
     bind (log_event (Combine_Summaries cs)) (\<lambda>_.
     bind (combine_summaries e cs) (\<lambda>final_summary.
     bind (log_event (Extract_Sections cleaned_text)) (\<lambda>_.
     bind (extract_sections e cleaned_text) (\<lambda>secs.
     bind (log_event (Apply_Rule_Checks cleaned_text)) (\<lambda>_.
     bind (apply_rule_checks e cleaned_text) (\<lambda>checks.
     bind (log_event (Export_Json output_path)) (\<lambda>_.
     bind (export_json final_summary secs checks output_path) (\<lambda>_.
     ret \<lparr>summary = final_summary, sections = secs, rule_checks = checks,
          chunk_summaries = cs\<rparr>))))))))"

definition finish_events :: "str \<Rightarrow> str \<Rightarrow> json \<Rightarrow> event list" where
  "finish_events cleaned_text output_path cs =
     [Combine_Summaries cs,
      Generate_Content (combine_prompt
        (py_join [10, 10] (case join_parts cs of Inr parts \<Rightarrow> parts | Inl err \<Rightarrow> []))),
      Extract_Sections cleaned_text,
      Generate_Content (sections_prompt cleaned_text),
      Apply_Rule_Checks cleaned_text,
      Generate_Content (rules_prompt cleaned_text),
      Export_Json output_path]"

text \<open>The world after some more events.\<close>

definition add_log :: "world \<Rightarrow> event list \<Rightarrow> world" where
  "add_log w evs = w\<lparr>log := log w @ evs\<rparr>"

text \<open>The limits of an interpreter with its defaults, called near the top of the stack.\<close>

definition default_limits :: limits where
  "default_limits = \<lparr>nesting_left = 990, int_max_str_digits = 4300\<rparr>"

text \<open>
  A PDF of one short line, and a model that answers \<open>ok\<close> to every prompt.
\<close>

definition example_env :: env where
  "example_env = \<lparr>pdf_text = (\<lambda>path. Inr (lit ''Section 1 - Definitions'')),
                   reply = (\<lambda>n prompt. Inr (lit ''ok'')),
                   cache_limits = default_limits,
                   sections_limits = default_limits,
                   rules_limits = default_limits\<rparr>"

text \<open>The same, with a model that answers a given text to every prompt.\<close>

definition env_replying :: "str \<Rightarrow> env" where
  "env_replying response_text = example_env\<lparr>reply := (\<lambda>n prompt. Inr response_text)\<rparr>"

text \<open>
  Two responses that \<open>json.loads\<close> refuses with another exception than
  \<open>JSONDecodeError\<close>: 2000 opening brackets, and one integer of 4301 digits.
\<close>

definition deep_response :: str where
  "deep_response = replicate 2000 91"

definition long_int_response :: str where
  "long_int_response = replicate 4301 49"

text \<open>A file system without files, and nothing logged.\<close>

definition empty_world :: world where
  "empty_world = \<lparr>files = Map.empty, log = []\<rparr>"

section \<open>Chunking\<close>

lemma map_upt_shift: "map f [0..<Suc n] = f 0 # map (\<lambda>k. f (Suc k)) [0..<n]"
proof -
  have "[0..<Suc n] = 0 # map Suc [0..<n]"
    by (simp add: upt_conv_Cons map_Suc_upt del: upt_Suc)
  then show ?thesis by (simp add: comp_def del: upt_Suc)
qed

lemma range_div_step:
  assumes "0 < step" "start < stop"
  shows "(stop - start + step - 1) div step = Suc ((stop - (start + step) + step - 1) div step)"
proof (cases "start + step \<le> stop")
  case True
  define m where "m = stop - (start + step) + step - 1"
  have e: "stop - start + step - 1 = m + step" using assms True by (simp add: m_def)
  have "(m + step) div step = Suc (m div step)"
    using assms(1) div_add_self2 [of step m] by simp
  then show ?thesis unfolding e m_def .
next
  case False
  define k where "k = stop - start - 1"
  have k: "k < step" "stop - start + step - 1 = k + step"
    using assms False by (simp_all add: k_def)
  have z: "stop - (start + step) + step - 1 = step - 1" using assms False by simp
  have "(k + step) div step = Suc (k div step)"
    using assms(1) div_add_self2 [of step k] by simp
  moreover have "k div step = 0" using k by simp
  moreover have "(step - 1) div step = 0" using assms by simp
  ultimately show ?thesis unfolding k(2) z by simp
qed

lemma py_range_conv:
  "0 < step \<Longrightarrow>
   py_range start stop step = map (\<lambda>k. start + k * step) [0..<(stop - start + step - 1) div step]"
proof (induction start stop step rule: py_range.induct)
  case (1 start stop step)
  show ?case
  proof (cases "start < stop")
    case False
    with 1(2) have "(stop - start + step - 1) div step = 0" by simp
    with False show ?thesis by (simp add: py_range.simps [of start stop step])
  next
    case True
    define n where "n = (stop - (start + step) + step - 1) div step"
    have d: "(stop - start + step - 1) div step = Suc n"
      unfolding n_def using 1(2) True by (rule range_div_step)
    have ih: "py_range (start + step) stop step = map (\<lambda>k. start + step + k * step) [0..<n]"
      using 1(1) True 1(2) by (simp add: n_def)
    have "map (\<lambda>k. start + k * step) [0..<Suc n] =
          start # map (\<lambda>k. start + step + k * step) [0..<n]"
      by (simp add: map_upt_shift add.assoc del: upt_Suc)
    with True 1(2) ih show ?thesis
      unfolding d by (simp add: py_range.simps [of start stop step] del: upt_Suc)
  qed
qed

lemma chunk_text_conv:
  assumes "0 < sz"
  shows "chunk_text text sz =
         Inr (map (\<lambda>k. take (nat sz) (drop (k * nat sz) text))
                  [0..<n_chunks (length text) (nat sz)])"
  using assms by (simp add: chunk_text_def py_range_conv py_slice_def n_chunks_def comp_def)

lemma concat_chunks:
  "0 < s \<Longrightarrow> n * s \<ge> length xs \<Longrightarrow>
   concat (map (\<lambda>k. take s (drop (k * s) xs)) [0..<n]) = xs"
proof (induction n arbitrary: xs)
  case 0
  then show ?case by simp
next
  case (Suc n)
  have "map (\<lambda>k. take s (drop (k * s) xs)) [0..<Suc n] =
        take s xs # map (\<lambda>k. take s (drop (k * s) (drop s xs))) [0..<n]"
    by (simp add: map_upt_shift add.commute del: upt_Suc)
  moreover have "concat (map (\<lambda>k. take s (drop (k * s) (drop s xs))) [0..<n]) = drop s xs"
    using Suc.prems by (intro Suc.IH) simp_all
  ultimately show ?case by simp
qed

lemma n_chunks_covers: "0 < s \<Longrightarrow> len \<le> n_chunks len s * s"
proof -
  assume s: "0 < s"
  have "len + s - 1 = (len + s - 1) div s * s + (len + s - 1) mod s" by simp
  moreover have "(len + s - 1) mod s < s" using s by simp
  ultimately show ?thesis unfolding n_chunks_def by linarith
qed

lemma n_chunks_tight: "0 < s \<Longrightarrow> k < n_chunks len s \<Longrightarrow> k * s < len"
proof -
  assume s: "0 < s" and k: "k < n_chunks len s"
  from k have "Suc k \<le> (len + s - 1) div s" by (simp add: n_chunks_def)
  then have "Suc k * s \<le> (len + s - 1) div s * s" by (rule mult_le_mono1)
  also have "\<dots> \<le> len + s - 1" by simp
  finally show ?thesis using s by simp
qed

lemma n_chunks_full: "0 < s \<Longrightarrow> Suc k < n_chunks len s \<Longrightarrow> Suc k * s \<le> len"
  using n_chunks_tight [of s "Suc k" len] by simp

text \<open>
  Claim C1. For every text and every chunk size greater than 0, \<open>chunk_text\<close> returns
  (without raising) the consecutive slices of the text in order: chunk \<open>k\<close> is
  \<open>text[k*size : k*size+size]\<close>, the concatenation of the chunks is the text, no chunk is
  empty or longer than the size, every chunk but the last has exactly the size, the empty
  text gives no chunk, and a text of 15000 characters with size 6000 gives chunks of
  lengths 6000, 6000 and 3000.
\<close>

theorem chunk_text_partition:
  assumes "0 < sz"
  shows "\<exists>chunks. chunk_text text sz = Inr chunks
           \<and> concat chunks = text
           \<and> (\<forall>k<length chunks. chunks ! k = py_slice text (k * nat sz) (k * nat sz + nat sz))
           \<and> (\<forall>c\<in>set chunks. 0 < length c \<and> int (length c) \<le> sz)
           \<and> (\<forall>c\<in>set (butlast chunks). int (length c) = sz)
           \<and> chunk_text ([]::'a list) sz = Inr []
           \<and> (length text = 15000 \<and> sz = 6000 \<longrightarrow> map length chunks = [6000, 6000, 3000])"
proof -
  define s where "s = nat sz"
  define n where "n = n_chunks (length text) s"
  define chunks where "chunks = map (\<lambda>k. take s (drop (k * s) text)) [0..<n]"
  have s: "0 < s" "int s = sz" using assms by (simp_all add: s_def)
  have 1: "chunk_text text sz = Inr chunks"
    using assms by (simp add: chunk_text_conv chunks_def n_def s_def)
  have 2: "concat chunks = text"
    unfolding chunks_def n_def using s(1) by (intro concat_chunks n_chunks_covers)
  have 3: "\<forall>k<length chunks. chunks ! k = py_slice text (k * nat sz) (k * nat sz + nat sz)"
    by (simp add: chunks_def py_slice_def s_def)
  have 4: "\<forall>c\<in>set chunks. 0 < length c \<and> int (length c) \<le> sz"
  proof
    fix c assume "c \<in> set chunks"
    then obtain k where k: "k < n" "c = take s (drop (k * s) text)"
      by (auto simp: chunks_def)
    from k(1) have "k * s < length text"
      unfolding n_def using s(1) by (intro n_chunks_tight)
    with k(2) s show "0 < length c \<and> int (length c) \<le> sz" by auto
  qed
  have 5: "\<forall>c\<in>set (butlast chunks). int (length c) = sz"
  proof
    fix c assume "c \<in> set (butlast chunks)"
    moreover have "butlast chunks = map (\<lambda>k. take s (drop (k * s) text)) [0..<n - 1]"
      unfolding chunks_def by (simp add: butlast_conv_take take_map)
    ultimately obtain k where k: "k < n - 1" "c = take s (drop (k * s) text)"
      by auto
    from k(1) have "Suc k < n_chunks (length text) s" by (simp add: n_def)
    with s(1) have "Suc k * s \<le> length text" by (rule n_chunks_full)
    then have "length c = s" using k(2) by simp
    with s(2) show "int (length c) = sz" by simp
  qed
  have 6: "chunk_text ([]::'a list) sz = Inr []"
    using assms by (simp add: chunk_text_conv n_chunks_def)
  have 7: "length text = 15000 \<and> sz = 6000 \<longrightarrow> map length chunks = [6000, 6000, 3000]"
  proof
    assume a: "length text = 15000 \<and> sz = 6000"
    then have "s = 6000" by (simp add: s_def)
    moreover from this a have "n = 3" by (simp add: n_def n_chunks_def)
    moreover have "[0..<3] = [0, 1, 2::nat]" by (simp add: numeral_3_eq_3 upt_conv_Cons)
    ultimately show "map length chunks = [6000, 6000, 3000]"
      using a by (simp add: chunks_def)
  qed
  show ?thesis
    by (rule exI [of _ chunks]) (intro conjI 1 2 3 4 5 6 7)
qed

theorem chunk_text_partition_witness:
  "(0::int) < 6000 \<and>
   (\<exists>chunks. chunk_text (replicate 15000 (97::int)) 6000 = Inr chunks
           \<and> concat chunks = replicate 15000 97
           \<and> (\<forall>k<length chunks.
                 chunks ! k = py_slice (replicate 15000 97) (k * nat 6000) (k * nat 6000 + nat 6000))
           \<and> (\<forall>c\<in>set chunks. 0 < length c \<and> int (length c) \<le> 6000)
           \<and> (\<forall>c\<in>set (butlast chunks). int (length c) = 6000)
           \<and> chunk_text ([]::int list) 6000 = Inr []
           \<and> (length (replicate 15000 (97::int)) = 15000 \<and> (6000::int) = 6000
                \<longrightarrow> map length chunks = [6000, 6000, 3000]))"
proof -
  have h: "(0::int) < 6000" by simp
  from h chunk_text_partition [OF h, of "replicate 15000 (97::int)"] show ?thesis
    by (rule conjI)
qed

section \<open>The rule checker and the section extractor\<close>

lemma default_checks_shape:
  "\<exists>records. create_default_rule_checks = JArray records
     \<and> length records = 6
     \<and> map (\<lambda>r. py_getitem r (lit ''rule'')) records
         = map (\<lambda>rule. Inr (JString rule))
             [lit ''Act must define key terms'',
              lit ''Act must specify eligibility criteria'',
              lit ''Act must specify what the authority (government) must do'',
              lit ''Act must list penalties or enforcement methods'',
              lit ''Act must explain how to calculate payments'',
              lit ''Act must require records or reporting'']
     \<and> (\<forall>r\<in>set records.
            py_getitem r (lit ''status'') = Inr (JString (lit ''fail''))
          \<and> py_getitem r (lit ''confidence'') = Inr (JInt 0)
          \<and> py_getitem r (lit ''evidence'') = Inr (JString (lit ''Could not process''))
          \<and> py_len r = Inr 4)"
  by (simp add: create_default_rule_checks_def LEGAL_DOCUMENT_RULES_def py_getitem_def py_len_def lit_def)

lemma apply_rule_checks_eq:
  "apply_rule_checks e text w =
     (case reply e (n_generated w) (rules_prompt text) of
        Inl err \<Rightarrow> Inl err
      | Inr response_text \<Rightarrow> rule_checks_of_response (rules_limits e) response_text,
      w\<lparr>log := log w @ [Generate_Content (rules_prompt text)]\<rparr>)"
  by (simp add: apply_rule_checks_def bind_def generate_content_def split: sum.splits)

lemma extract_sections_eq:
  "extract_sections e text w =
     (case reply e (n_generated w) (sections_prompt text) of
        Inl err \<Rightarrow> Inl err
      | Inr response_text \<Rightarrow> sections_of_response (sections_limits e) response_text,
      w\<lparr>log := log w @ [Generate_Content (sections_prompt text)]\<rparr>)"
  by (simp add: extract_sections_def bind_def generate_content_def split: sum.splits)

lemma deep_nesting_raises:
  "d < n \<Longrightarrow> parse_value lim d (replicate n 91) = Inl RecursionError"
proof (induction d arbitrary: n)
  case 0
  then obtain m where n: "n = Suc m" by (cases n) auto
  show ?case unfolding n by (subst parse_value.simps) simp
next
  case (Suc d)
  then obtain m where n: "n = Suc m" and m: "d < m" by (cases n) auto
  then obtain k where k: "m = Suc k" by (cases m) auto
  let ?ys = "replicate k (91::int)"
  have xs: "replicate m 91 = 91 # ?ys" by (simp add: k)
  have ih: "parse_value lim d (91 # ?ys) = Inl RecursionError"
    using Suc.IH [OF m] by (simp add: k)
  have pe: "parse_elems lim d (91 # ?ys) = Inl RecursionError"
    by (subst parse_elems.simps) (simp add: ih)
  have sk: "skip_ws (91 # ?ys) = 91 # ?ys"
    by (simp add: skip_ws_def json_ws_def)
  have "parse_value lim (Suc d) (91 # 91 # ?ys) = Inl RecursionError"
    by (subst parse_value.simps) (simp add: sk pe)
  then show ?case by (simp add: n k)
qed

lemma json_loads_deep:
  "nesting_left lim < n \<Longrightarrow> json_loads lim (replicate n 91) = Inl RecursionError"
proof -
  assume a: "nesting_left lim < n"
  then obtain m where n: "n = Suc m" by (cases n) auto
  have sk: "skip_ws (replicate n 91) = replicate n 91"
    by (simp add: n skip_ws_def json_ws_def)
  have t: "take 1 (replicate n (91::int)) \<noteq> [0xFEFF]"
    by (simp add: n)
  show ?thesis
    unfolding json_loads_def sk using t deep_nesting_raises [OF a, of lim] by simp
qed

lemma match_number_ones:
  "0 < n \<Longrightarrow> match_number (replicate n 49) = Some (False, n)"
proof -
  assume "0 < n"
  then obtain m where n: "n = Suc m" by (cases n) auto
  have tw: "takeWhile ascii_digit (replicate n 49) = replicate n 49"
    by (rule takeWhile_eq_all_conv [THEN iffD2]) (simp add: ascii_digit_def)
  have t1: "take 1 (replicate n (49::int)) = [49]" by (simp add: n)
  show ?thesis
    unfolding match_number_def
    using \<open>0 < n\<close> by (simp add: t1 tw Let_def ascii_digit_def)
qed

lemma long_int_raises:
  assumes "0 < int_max_str_digits lim" "int_max_str_digits lim < n"
  shows "json_loads lim (replicate n 49) = Inl ValueError"
proof -
  from assms obtain m where n: "n = Suc m" by (cases n) auto
  have pos: "0 < n" using assms by simp
  have sk: "skip_ws (replicate n 49) = replicate n 49"
    by (simp add: n skip_ws_def json_ws_def)
  have t: "take 1 (replicate n (49::int)) \<noteq> [0xFEFF]" "take 1 (replicate n (49::int)) = [49]"
    by (simp_all add: n)
  have pn: "parse_number lim (replicate n 49) = Inl ValueError"
    unfolding parse_number_def match_number_ones [OF pos] using assms t by simp
  have pn': "parse_number lim (49 # replicate m 49) = Inl ValueError"
    using pn by (simp add: n)
  have "parse_value lim (nesting_left lim) (49 # replicate m 49) = Inl ValueError"
    by (subst parse_value.simps) (simp add: starts_with_def lit_def pn')
  then have pv: "parse_value lim (nesting_left lim) (replicate n 49) = Inl ValueError"
    by (simp add: n)
  show ?thesis
    unfolding json_loads_def sk using t pv by simp
qed

lemma fence_needs_backquote:
  "96 \<notin> set s \<Longrightarrow> ends (Seq (chars [96, 96, 96]) r) (p, s, g) = []"
  by (cases s) (simp_all add: chars_def seq_def)

lemma no_backquote_no_match:
  "96 \<notin> set s \<Longrightarrow> first_match b (Seq (chars [96, 96, 96]) r) p s = None"
  by (simp add: first_match_def fence_needs_backquote del: ends.simps)

lemma no_backquote_no_fence:
  "96 \<notin> set s \<Longrightarrow> re_search_from (Seq (chars [96, 96, 96]) r) p s = None"
proof (induction s arbitrary: p)
  case Nil
  then show ?case by (simp add: no_backquote_no_match del: ends.simps)
next
  case (Cons x xs)
  from Cons.prems have "first_match False (Seq (chars [96, 96, 96]) r) p (x # xs) = None"
    by (rule no_backquote_no_match)
  moreover from Cons have "re_search_from (Seq (chars [96, 96, 96]) r) (Some x) xs = None"
    by simp
  ultimately show ?case by simp
qed

lemma fenced_json_plain:
  "96 \<notin> set response_text \<Longrightarrow> fenced_json RULE_FENCE response_text = response_text"
  "96 \<notin> set response_text \<Longrightarrow> fenced_json SECTION_FENCE response_text = response_text"
  by (simp_all add: fenced_json_def re_search_def RULE_FENCE_def SECTION_FENCE_def
        seq_def [of "_ # _"] no_backquote_no_fence)

lemma deep_response_raises:
  "96 \<notin> set deep_response"
  "json_loads default_limits deep_response = Inl RecursionError"
  by (simp_all add: deep_response_def json_loads_deep default_limits_def)

lemma long_int_response_raises:
  "96 \<notin> set long_int_response"
  "json_loads default_limits long_int_response = Inl ValueError"
  by (simp_all add: long_int_response_def long_int_raises default_limits_def)

lemma replying_limits:
  "rules_limits (env_replying r) = default_limits"
  "sections_limits (env_replying r) = default_limits"
  "reply (env_replying r) n prompt = Inr r"
  by (simp_all add: env_replying_def example_env_def)

text \<open>
  What the rule checker does whenever the model answers and the text handed to
  \<open>json.loads\<close> (the content of the fenced block when the response has one, the
  response itself otherwise) is refused with a \<open>JSONDecodeError\<close>, or parses to a
  value that is not a list: it returns the six default records.
\<close>

lemma rule_checks_fallback_on_decode_error:
  assumes "reply e (n_generated w) (rules_prompt text) = Inr response_text"
      and "json_loads (rules_limits e) (fenced_json RULE_FENCE response_text) = Inl JSONDecodeError
         \<or> (\<exists>v. json_loads (rules_limits e) (fenced_json RULE_FENCE response_text) = Inr v
                \<and> \<not> is_list v)"
  shows "\<exists>records. fst (apply_rule_checks e text w) = Inr (JArray records)
     \<and> length records = 6
     \<and> map (\<lambda>r. py_getitem r (lit ''rule'')) records
         = map (\<lambda>rule. Inr (JString rule))
             [lit ''Act must define key terms'',
              lit ''Act must specify eligibility criteria'',
              lit ''Act must specify what the authority (government) must do'',
              lit ''Act must list penalties or enforcement methods'',
              lit ''Act must explain how to calculate payments'',
              lit ''Act must require records or reporting'']
     \<and> (\<forall>r\<in>set records.
            py_getitem r (lit ''status'') = Inr (JString (lit ''fail''))
          \<and> py_getitem r (lit ''confidence'') = Inr (JInt 0)
          \<and> py_getitem r (lit ''evidence'') = Inr (JString (lit ''Could not process''))
          \<and> py_len r = Inr 4)"
proof -
  from assms(2) have "rule_checks_of_response (rules_limits e) response_text
                      = Inr create_default_rule_checks"
    by (auto simp: rule_checks_of_response_def)
  with assms(1) have "fst (apply_rule_checks e text w) = Inr create_default_rule_checks"
    by (simp add: apply_rule_checks_eq)
  with default_checks_shape show ?thesis by simp
qed

text \<open>
  Claim C3 fails on the code. A response of 2000 opening brackets cannot be parsed as
  JSON, and neither can a response that is one integer of 4301 digits; on the first
  \<open>json.loads\<close> raises \<open>RecursionError\<close> and on the second a plain \<open>ValueError\<close>,
  the handler of \<open>apply_rule_checks\<close> catches \<open>json.JSONDecodeError\<close> only, and
  \<open>apply_rule_checks\<close> raises instead of returning the six default records.
\<close>

theorem rule_checks_raise:
  "json_loads (rules_limits (env_replying deep_response))
      (fenced_json RULE_FENCE deep_response) = Inl RecursionError
   \<and> fst (apply_rule_checks (env_replying deep_response) (lit ''Section 1'') empty_world)
       = Inl RecursionError
   \<and> json_loads (rules_limits (env_replying long_int_response))
        (fenced_json RULE_FENCE long_int_response) = Inl ValueError
   \<and> fst (apply_rule_checks (env_replying long_int_response) (lit ''Section 1'') empty_world)
       = Inl ValueError"
  by (simp add: apply_rule_checks_eq rule_checks_of_response_def replying_limits
        fenced_json_plain deep_response_raises long_int_response_raises)

text \<open>
  What the section extractor does whenever the model answers and the text handed to
  \<open>json.loads\<close> is refused with a \<open>JSONDecodeError\<close>: it returns a dict with exactly
  the seven keys definitions, obligations, responsibilities, eligibility, payments,
  penalties and record\_keeping, each with the empty string.
\<close>

lemma sections_fallback_on_decode_error:
  assumes "reply e (n_generated w) (sections_prompt text) = Inr response_text"
      and "json_loads (sections_limits e) (fenced_json SECTION_FENCE response_text)
           = Inl JSONDecodeError"
  shows "\<exists>d. fst (extract_sections e text w) = Inr (JObject d)
     \<and> map fst d = [lit ''definitions'', lit ''obligations'', lit ''responsibilities'',
                     lit ''eligibility'', lit ''payments'', lit ''penalties'',
                     lit ''record_keeping'']
     \<and> distinct (map fst d)
     \<and> (\<forall>k\<in>set (map fst d). dict_get d k = Some (JString []))"
proof -
  from assms(2) have "sections_of_response (sections_limits e) response_text
                      = Inr default_sections"
    by (simp add: sections_of_response_def)
  with assms(1) have "fst (extract_sections e text w) = Inr default_sections"
    by (simp add: extract_sections_eq)
  then show ?thesis by (simp add: default_sections_def lit_def)
qed

text \<open>
  Claim C4 fails on the code in the same way. On a response of 2000 opening brackets, and
  on a response that is one integer of 4301 digits, the JSON parse fails with an exception
  that the handler of \<open>extract_sections\<close> does not catch, and \<open>extract_sections\<close>
  raises instead of returning the seven keys.
\<close>

theorem sections_raise:
  "json_loads (sections_limits (env_replying deep_response))
      (fenced_json SECTION_FENCE deep_response) = Inl RecursionError
   \<and> fst (extract_sections (env_replying deep_response) (lit ''Section 1'') empty_world)
       = Inl RecursionError
   \<and> json_loads (sections_limits (env_replying long_int_response))
        (fenced_json SECTION_FENCE long_int_response) = Inl ValueError
   \<and> fst (extract_sections (env_replying long_int_response) (lit ''Section 1'') empty_world)
       = Inl ValueError"
  by (simp add: extract_sections_eq sections_of_response_def replying_limits
        fenced_json_plain deep_response_raises long_int_response_raises)

lemma requested_format_parses:
  "json_loads default_limits (fenced_json SECTION_FENCE (py_join [10] sections_format)) =
     Inr (JObject [(lit ''definitions'', JString (lit ''...'')),
                   (lit ''obligations'', JString (lit ''...'')),
                   (lit ''responsibilities'', JString (lit ''...'')),
                   (lit ''eligibility'', JString (lit ''...'')),
                   (lit ''payments'', JString (lit ''...'')),
                   (lit ''penalties'', JString (lit ''...'')),
                   (lit ''record_keepin'', JString (lit ''...''))])"
  by code_simp

text \<open>
  Claim C10. When the model answers \<open>extract_sections\<close> and the text handed to
  \<open>json.loads\<close> parses, \<open>extract_sections\<close> returns the parsed value as it is, whatever
  its keys. When the answer is exactly the format that the extractor's own prompt asks
  for, the returned dict has the key record\_keepin and has not the key record\_keeping.
\<close>

theorem sections_pass_through:
  assumes "reply e (n_generated w) (sections_prompt text) = Inr response_text"
      and "json_loads (sections_limits e) (fenced_json SECTION_FENCE response_text) = Inr v"
  shows "fst (extract_sections e text w) = Inr v
     \<and> (\<exists>d. fst (extract_sections (env_replying (py_join [10] sections_format)) text w)
              = Inr (JObject d)
            \<and> dict_get d (lit ''record_keepin'') = Some (JString (lit ''...''))
            \<and> dict_get d (lit ''record_keeping'') = None
            \<and> map fst d = [lit ''definitions'', lit ''obligations'', lit ''responsibilities'',
                            lit ''eligibility'', lit ''payments'', lit ''penalties'',
                            lit ''record_keepin''])"
proof -
  from assms have 1: "fst (extract_sections e text w) = Inr v"
    by (simp add: extract_sections_eq sections_of_response_def)
  have "fst (extract_sections (env_replying (py_join [10] sections_format)) text w)
        = sections_of_response default_limits (py_join [10] sections_format)"
    by (simp add: extract_sections_eq env_replying_def example_env_def)
  then have 2: "fst (extract_sections (env_replying (py_join [10] sections_format)) text w) =
     Inr (JObject [(lit ''definitions'', JString (lit ''...'')),
                   (lit ''obligations'', JString (lit ''...'')),
                   (lit ''responsibilities'', JString (lit ''...'')),
                   (lit ''eligibility'', JString (lit ''...'')),
                   (lit ''payments'', JString (lit ''...'')),
                   (lit ''penalties'', JString (lit ''...'')),
                   (lit ''record_keepin'', JString (lit ''...''))])"
    by (simp add: sections_of_response_def requested_format_parses)
  show ?thesis
    unfolding 1 2 by (simp add: lit_def)
qed

theorem sections_pass_through_witness:
  "(reply (env_replying (lit ''[1, 2]'')) (n_generated empty_world)
      (sections_prompt (lit ''Section 1'')) = Inr (lit ''[1, 2]'')
    \<and> json_loads (sections_limits (env_replying (lit ''[1, 2]'')))
         (fenced_json SECTION_FENCE (lit ''[1, 2]'')) = Inr (JArray [JInt 1, JInt 2]))
   \<and> fst (extract_sections (env_replying (lit ''[1, 2]'')) (lit ''Section 1'') empty_world)
       = Inr (JArray [JInt 1, JInt 2])
   \<and> (\<exists>d. fst (extract_sections (env_replying (py_join [10] sections_format))
                 (lit ''Section 1'') empty_world)
              = Inr (JObject d)
            \<and> dict_get d (lit ''record_keepin'') = Some (JString (lit ''...''))
            \<and> dict_get d (lit ''record_keeping'') = None
            \<and> map fst d = [lit ''definitions'', lit ''obligations'', lit ''responsibilities'',
                            lit ''eligibility'', lit ''payments'', lit ''penalties'',
                            lit ''record_keepin''])"
proof -
  let ?r = "lit ''[1, 2]''"
  have h1: "reply (env_replying ?r) (n_generated empty_world) (sections_prompt (lit ''Section 1''))
            = Inr ?r"
    by (simp add: env_replying_def)
  have "json_loads default_limits (fenced_json SECTION_FENCE ?r) = Inr (JArray [JInt 1, JInt 2])"
    by code_simp
  then have h2: "json_loads (sections_limits (env_replying ?r)) (fenced_json SECTION_FENCE ?r)
                 = Inr (JArray [JInt 1, JInt 2])"
    by (simp add: env_replying_def example_env_def)
  note c = sections_pass_through [OF h1 h2]
  show ?thesis
    by (intro conjI h1 h2 c [THEN conjunct1] c [THEN conjunct2])
qed

section \<open>The chunk-summary cache\<close>

lemma cached_field_Some:
  "cached_field data = Inr (Some v) \<longleftrightarrow>
     (\<exists>d. data = JObject d \<and> dict_get d (lit ''chunk_summaries'') = Some v
          \<and> (\<exists>n. py_len v = Inr n))"
  by (cases data)
     (auto simp: cached_field_def py_contains_def py_getitem_def
           split: sum.splits bool.splits option.splits)

lemma load_Some:
  "load_existing_chunk_summaries lim w path = Some v \<longleftrightarrow>
     (\<exists>content d. files w path = Some (File content)
        \<and> json_loads lim content = Inr (JObject d)
        \<and> dict_get d (lit ''chunk_summaries'') = Some v
        \<and> (\<exists>n. py_len v = Inr n))"
proof -
  have *: "(case cached_field data of Inl err \<Rightarrow> None | Inr r \<Rightarrow> r) = Some v
           \<longleftrightarrow> cached_field data = Inr (Some v)" for data
    by (auto split: sum.splits)
  show ?thesis
    unfolding load_existing_chunk_summaries_def
    by (auto simp: * cached_field_Some split: option.splits fs_entry.splits sum.splits)
qed

text \<open>
  Claim C6. \<open>load_existing_chunk_summaries\<close> returns a list exactly when the path
  names a readable text file whose content parses to a dict that has that list under
  \<open>chunk_summaries\<close>. It returns \<open>None\<close> (and raises nothing: every exception is a
  branch that ends in \<open>None\<close>) when the path does not exist, when the file cannot be
  opened or read, when the content is not valid JSON, and when the parsed value is not a
  dict with the key \<open>chunk_summaries\<close>.
\<close>

theorem load_existing_chunk_summaries_spec:
  "(load_existing_chunk_summaries lim w path = Some (JArray items) \<longleftrightarrow>
      (\<exists>content d. files w path = Some (File content)
         \<and> json_loads lim content = Inr (JObject d)
         \<and> dict_get d (lit ''chunk_summaries'') = Some (JArray items)))
   \<and> (files w path = None \<longrightarrow> load_existing_chunk_summaries lim w path = None)
   \<and> (files w path = Some Blocked \<or> files w path = Some Binary
        \<longrightarrow> load_existing_chunk_summaries lim w path = None)
   \<and> (\<forall>content. files w path = Some (File content) \<and> (\<exists>err. json_loads lim content = Inl err)
        \<longrightarrow> load_existing_chunk_summaries lim w path = None)
   \<and> (\<forall>content data. files w path = Some (File content) \<and> json_loads lim content = Inr data
          \<and> \<not> (\<exists>d. data = JObject d \<and> dict_get d (lit ''chunk_summaries'') \<noteq> None)
        \<longrightarrow> load_existing_chunk_summaries lim w path = None)"
proof (intro conjI allI impI)
  show "load_existing_chunk_summaries lim w path = Some (JArray items) \<longleftrightarrow>
      (\<exists>content d. files w path = Some (File content)
         \<and> json_loads lim content = Inr (JObject d)
         \<and> dict_get d (lit ''chunk_summaries'') = Some (JArray items))"
    by (simp add: load_Some py_len_def)
next
  assume "files w path = None"
  then show "load_existing_chunk_summaries lim w path = None"
    by (simp add: load_existing_chunk_summaries_def)
next
  assume "files w path = Some Blocked \<or> files w path = Some Binary"
  then show "load_existing_chunk_summaries lim w path = None"
    by (auto simp: load_existing_chunk_summaries_def)
next
  fix content
  assume "files w path = Some (File content) \<and> (\<exists>err. json_loads lim content = Inl err)"
  then show "load_existing_chunk_summaries lim w path = None"
    by (auto simp: load_existing_chunk_summaries_def)
next
  fix content data
  assume a: "files w path = Some (File content) \<and> json_loads lim content = Inr data
          \<and> \<not> (\<exists>d. data = JObject d \<and> dict_get d (lit ''chunk_summaries'') \<noteq> None)"
  show "load_existing_chunk_summaries lim w path = None"
  proof (cases "load_existing_chunk_summaries lim w path")
    case None
    then show ?thesis .
  next
    case (Some v)
    with a show ?thesis by (auto simp: load_Some)
  qed
qed

theorem load_existing_chunk_summaries_spec_witness:
  "load_existing_chunk_summaries default_limits (world_with cache_ab) cache_path
     = Some (JArray [JString (lit ''a''), JString (lit ''b'')])
   \<and> load_existing_chunk_summaries default_limits (world_with cache_ab) (lit ''other.json'') = None
   \<and> load_existing_chunk_summaries default_limits (world_with (lit ''plain text'')) cache_path = None
   \<and> load_existing_chunk_summaries default_limits
        (world_with (lit ''{'' @ [34] @ lit ''summaries'' @ [34] @ lit '': []}'')) cache_path = None"
proof (intro conjI)
  have "files (world_with cache_ab) cache_path = Some (File cache_ab)"
    by (simp add: world_with_def)
  moreover have "json_loads default_limits cache_ab =
      Inr (JObject [(lit ''chunk_summaries'', JArray [JString (lit ''a''), JString (lit ''b'')])])"
    by code_simp
  ultimately show "load_existing_chunk_summaries default_limits (world_with cache_ab) cache_path
     = Some (JArray [JString (lit ''a''), JString (lit ''b'')])"
    using load_existing_chunk_summaries_spec
            [of default_limits "world_with cache_ab" cache_path "[JString (lit ''a''), JString (lit ''b'')]"]
    by simp
next
  have "files (world_with cache_ab) (lit ''other.json'') = None"
    by (simp add: world_with_def cache_path_def lit_def)
  then show "load_existing_chunk_summaries default_limits (world_with cache_ab) (lit ''other.json'') = None"
    using load_existing_chunk_summaries_spec [of default_limits "world_with cache_ab" "lit ''other.json''"]
    by simp
next
  have "files (world_with (lit ''plain text'')) cache_path = Some (File (lit ''plain text''))"
    by (simp add: world_with_def)
  moreover have "json_loads default_limits (lit ''plain text'') = Inl JSONDecodeError"
    by code_simp
  ultimately show "load_existing_chunk_summaries default_limits (world_with (lit ''plain text'')) cache_path = None"
    using load_existing_chunk_summaries_spec [of default_limits "world_with (lit ''plain text'')" cache_path]
    by simp
next
  let ?c = "lit ''{'' @ [34] @ lit ''summaries'' @ [34] @ lit '': []}''"
  have "files (world_with ?c) cache_path = Some (File ?c)"
    by (simp add: world_with_def)
  moreover have "json_loads default_limits ?c = Inr (JObject [(lit ''summaries'', JArray [])])"
    by code_simp
  moreover have "dict_get [(lit ''summaries'', JArray [])] (lit ''chunk_summaries'') = None"
    by (simp add: lit_def)
  ultimately show "load_existing_chunk_summaries default_limits (world_with ?c) cache_path = None"
    using load_existing_chunk_summaries_spec [of default_limits "world_with ?c" cache_path]
    by simp
qed

lemma process_hit:
  assumes "pdf_text e pdf_path = Inr raw_text"
      and "load_existing_chunk_summaries (cache_limits e) w cache_path = Some cached"
  shows "process_legislation e pdf_path output_path w
         = finish e (clean_text raw_text) output_path cached w"
  using assms by (simp add: process_legislation_def finish_def bind_def ret_def Let_def)

lemma n_generated_log_event [simp]:
  "\<not> is_generate ev \<Longrightarrow> n_generated (w\<lparr>log := log w @ [ev]\<rparr>) = n_generated w"
  by (simp add: n_generated_def)

lemma n_generated_generate [simp]:
  "n_generated (w\<lparr>log := log w @ [Generate_Content p]\<rparr>) = Suc (n_generated w)"
  by (simp add: n_generated_def is_generate_def)

lemma finish_eq:
  "finish e cleaned out cs w =
     (let evs = finish_events cleaned out cs; n = n_generated w in
      case join_parts cs of
        Inl err \<Rightarrow> (Inl err, add_log w (take 1 evs))
      | Inr parts \<Rightarrow>
          (case reply e n (combine_prompt (py_join [10, 10] parts)) of
             Inl err \<Rightarrow> (Inl err, add_log w (take 2 evs))
           | Inr final \<Rightarrow>
               (case reply e (n + 1) (sections_prompt cleaned) of
                  Inl err \<Rightarrow> (Inl err, add_log w (take 4 evs))
                | Inr r1 \<Rightarrow>
                    (case sections_of_response (sections_limits e) r1 of
                       Inl err \<Rightarrow> (Inl err, add_log w (take 4 evs))
                     | Inr secs \<Rightarrow>
                    (case reply e (n + 2) (rules_prompt cleaned) of
                       Inl err \<Rightarrow> (Inl err, add_log w (take 6 evs))
                     | Inr r2 \<Rightarrow>
                         (case rule_checks_of_response (rules_limits e) r2 of
                            Inl err \<Rightarrow> (Inl err, add_log w (take 6 evs))
                          | Inr checks \<Rightarrow>
                         if files w out = Some Blocked then (Inl OSError, add_log w evs)
                         else (Inr \<lparr>summary = final, sections = secs,
                                     rule_checks = checks,
                                     chunk_summaries = cs\<rparr>,
                               (add_log w evs)\<lparr>files := (files w)(out \<mapsto> File (json_dumps
                                  (JObject [(lit ''summary'', JString final),
                                            (lit ''sections'', secs),
                                            (lit ''rule_checks'', checks)])))\<rparr>)))))))"
proof -
  note defs = finish_def finish_events_def add_log_def bind_def ret_def raise_def
        log_event_def combine_summaries_def generate_content_def extract_sections_def
        apply_rule_checks_def export_json_def write_json_def is_generate_def Let_def
        n_generated_def
  show ?thesis
  proof (cases "join_parts cs")
    case (Inl err)
    then show ?thesis by (simp add: defs)
  next
    case parts: (Inr parts)
    show ?thesis
    proof (cases "reply e (n_generated w) (combine_prompt (py_join [10, 10] parts))")
      case (Inl err)
      with parts show ?thesis by (simp add: defs)
    next
      case final: (Inr final)
      show ?thesis
      proof (cases "reply e (n_generated w + 1) (sections_prompt cleaned)")
        case (Inl err)
        with parts final show ?thesis by (simp add: defs)
      next
        case r1: (Inr r1)
        show ?thesis
        proof (cases "sections_of_response (sections_limits e) r1")
          case (Inl err)
          with parts final r1 show ?thesis by (simp add: defs)
        next
          case secs: (Inr secs)
          show ?thesis
          proof (cases "reply e (n_generated w + 2) (rules_prompt cleaned)")
            case (Inl err)
            with parts final r1 secs show ?thesis by (simp add: defs)
          next
            case r2: (Inr r2)
            show ?thesis
            proof (cases "rule_checks_of_response (rules_limits e) r2")
              case (Inl err)
              with parts final r1 secs r2 show ?thesis by (simp add: defs)
            next
              case (Inr checks)
              with parts final r1 secs r2 show ?thesis
                by (simp add: defs split: option.splits fs_entry.splits)
            qed
          qed
        qed
      qed
    qed
  qed
qed

lemma prompt_heads:
  "summarize_prompt c ! 9 = 83" "combine_prompt x ! 9 = 85"
  "sections_prompt y ! 9 = 69" "rules_prompt z ! 9 = 65"
  by (simp_all add: summarize_prompt_def combine_prompt_def sections_prompt_def
        rules_prompt_def lit_def nth_append)

lemma summarize_prompt_distinct:
  "summarize_prompt c \<noteq> combine_prompt x"
  "summarize_prompt c \<noteq> sections_prompt y"
  "summarize_prompt c \<noteq> rules_prompt z"
proof -
  show "summarize_prompt c \<noteq> combine_prompt x"
  proof
    assume "summarize_prompt c = combine_prompt x"
    then have "summarize_prompt c ! 9 = combine_prompt x ! 9" by simp
    then show False by (simp add: prompt_heads)
  qed
  show "summarize_prompt c \<noteq> sections_prompt y"
  proof
    assume "summarize_prompt c = sections_prompt y"
    then have "summarize_prompt c ! 9 = sections_prompt y ! 9" by simp
    then show False by (simp add: prompt_heads)
  qed
  show "summarize_prompt c \<noteq> rules_prompt z"
  proof
    assume "summarize_prompt c = rules_prompt z"
    then have "summarize_prompt c ! 9 = rules_prompt z ! 9" by simp
    then show False by (simp add: prompt_heads)
  qed
qed

lemma load_cached_list:
  assumes "files w cache_path = Some (File content)"
      and "json_loads (cache_limits e) content = Inr (JObject d)"
      and "dict_get d (lit ''chunk_summaries'') = Some (JArray items)"
  shows "load_existing_chunk_summaries (cache_limits e) w cache_path = Some (JArray items)"
  using assms
  by (simp add: load_existing_chunk_summaries_def cached_field_def py_contains_def
        py_getitem_def py_len_def)

lemma finish_log:
  "\<exists>k. log (snd (finish e cleaned out cs w)) = log w @ take k (finish_events cleaned out cs)
       \<and> 1 \<le> k \<and> ((\<exists>parts. join_parts cs = Inr parts) \<longrightarrow> 2 \<le> k)"
proof -
  let ?evs = "finish_events cleaned out cs"
  have len: "length ?evs = 7" by (simp add: finish_events_def)
  have "log (snd (finish e cleaned out cs w)) = log w @ take 1 ?evs \<and> (\<forall>parts. join_parts cs \<noteq> Inr parts)
      \<or> log (snd (finish e cleaned out cs w)) = log w @ take 2 ?evs
      \<or> log (snd (finish e cleaned out cs w)) = log w @ take 4 ?evs
      \<or> log (snd (finish e cleaned out cs w)) = log w @ take 6 ?evs
      \<or> log (snd (finish e cleaned out cs w)) = log w @ take 7 ?evs"
    using len by (simp add: finish_eq add_log_def Let_def split: sum.splits)
  then show ?thesis
    by (elim disjE conjE) (rule exI [of _ 1], simp; fail | rule exI [of _ 2], simp; fail
       | rule exI [of _ 4], simp; fail | rule exI [of _ 6], simp; fail | rule exI [of _ 7], simp; fail)+
qed

lemma finish_files:
  "out \<noteq> p \<Longrightarrow> files (snd (finish e cleaned out cs w)) p = files w p"
  by (simp add: finish_eq add_log_def Let_def split: sum.splits)

lemma finish_result:
  "fst (finish e cleaned out cs w) = Inr res \<Longrightarrow> chunk_summaries res = cs"
  by (auto simp: finish_eq add_log_def Let_def split: sum.splits if_splits)

text \<open>
  Claim C5. When at the start of \<open>process_legislation\<close> the cache file exists and holds
  an object whose field \<open>chunk_summaries\<close> is \<open>["a","b"]\<close> (and the PDF can be read, so
  that the pipeline reaches the cache), the run logs
  the combination of exactly \<open>["a","b"]\<close> first, with the prompt built from \<open>a\<close>, a blank
  line and \<open>b\<close>, and after it only section extraction, rule checks and the export of the
  result: it does not enter \<open>summarize_chunks\<close>, sends no chunk prompt to the model, and
  does not enter \<open>export_chunk_summaries\<close>; the cache file is left as it was (unless the
  output path is the cache path itself), and a returned result holds \<open>["a","b"]\<close>.
\<close>

theorem cache_hit_skips_summarization:
  assumes "files w cache_path = Some (File content)"
      and "json_loads (cache_limits e) content = Inr (JObject d)"
      and "dict_get d (lit ''chunk_summaries'')
           = Some (JArray [JString (lit ''a''), JString (lit ''b'')])"
      and "pdf_text e pdf_path = Inr raw_text"
  shows "(\<exists>k. 2 \<le> k \<and>
            log (snd (process_legislation e pdf_path output_path w)) =
            log w @ take k
              [Combine_Summaries (JArray [JString (lit ''a''), JString (lit ''b'')]),
               Generate_Content (combine_prompt (lit ''a'' @ [10, 10] @ lit ''b'')),
               Extract_Sections (clean_text raw_text),
               Generate_Content (sections_prompt (clean_text raw_text)),
               Apply_Rule_Checks (clean_text raw_text),
               Generate_Content (rules_prompt (clean_text raw_text)),
               Export_Json output_path])
       \<and> (\<forall>ev\<in>set (drop (length (log w)) (log (snd (process_legislation e pdf_path output_path w)))).
              (\<forall>chunks. ev \<noteq> Summarize_Chunks chunks)
            \<and> (\<forall>chunk. ev \<noteq> Generate_Content (summarize_prompt chunk))
            \<and> (\<forall>v path. ev \<noteq> Export_Chunk_Summaries v path))
       \<and> (output_path \<noteq> cache_path \<longrightarrow>
            files (snd (process_legislation e pdf_path output_path w)) cache_path
            = files w cache_path)
       \<and> (\<forall>res. fst (process_legislation e pdf_path output_path w) = Inr res \<longrightarrow>
            chunk_summaries res = JArray [JString (lit ''a''), JString (lit ''b'')])"
proof -
  let ?ab = "JArray [JString (lit ''a''), JString (lit ''b'')]"
  let ?c = "clean_text raw_text"
  let ?evs = "[Combine_Summaries ?ab,
               Generate_Content (combine_prompt (lit ''a'' @ [10, 10] @ lit ''b'')),
               Extract_Sections ?c, Generate_Content (sections_prompt ?c),
               Apply_Rule_Checks ?c, Generate_Content (rules_prompt ?c),
               Export_Json output_path]"
  have load: "load_existing_chunk_summaries (cache_limits e) w cache_path = Some ?ab"
    using assms(1-3) by (rule load_cached_list)
  have run: "process_legislation e pdf_path output_path w = finish e ?c output_path ?ab w"
    using assms(4) load by (rule process_hit)
  have parts: "join_parts ?ab = Inr [lit ''a'', lit ''b'']"
    by (simp add: join_parts_def as_string_def)
  have evs: "finish_events ?c output_path ?ab = ?evs"
    by (simp add: finish_events_def parts)
  obtain k where k: "log (snd (finish e ?c output_path ?ab w)) = log w @ take k ?evs" "2 \<le> k"
    using finish_log [of e ?c output_path ?ab w] parts unfolding evs by auto
  have 1: "\<exists>k. 2 \<le> k \<and> log (snd (process_legislation e pdf_path output_path w)) = log w @ take k ?evs"
    unfolding run using k by blast
  have 2: "\<forall>ev\<in>set (drop (length (log w)) (log (snd (process_legislation e pdf_path output_path w)))).
              (\<forall>chunks. ev \<noteq> Summarize_Chunks chunks)
            \<and> (\<forall>chunk. ev \<noteq> Generate_Content (summarize_prompt chunk))
            \<and> (\<forall>v path. ev \<noteq> Export_Chunk_Summaries v path)"
  proof
    fix ev
    assume "ev \<in> set (drop (length (log w)) (log (snd (process_legislation e pdf_path output_path w))))"
    then have "ev \<in> set (take k ?evs)" unfolding run k(1) by simp
    then have "ev \<in> set ?evs" by (rule in_set_takeD)
    then show "(\<forall>chunks. ev \<noteq> Summarize_Chunks chunks)
            \<and> (\<forall>chunk. ev \<noteq> Generate_Content (summarize_prompt chunk))
            \<and> (\<forall>v path. ev \<noteq> Export_Chunk_Summaries v path)"
      by (auto simp: summarize_prompt_distinct summarize_prompt_distinct [symmetric])
  qed
  have 3: "output_path \<noteq> cache_path \<longrightarrow>
            files (snd (process_legislation e pdf_path output_path w)) cache_path = files w cache_path"
    unfolding run by (simp add: finish_files)
  have 4: "\<forall>res. fst (process_legislation e pdf_path output_path w) = Inr res \<longrightarrow>
            chunk_summaries res = ?ab"
    unfolding run by (auto dest: finish_result)
  from 1 2 3 4 show ?thesis by (intro conjI)
qed

lemma n_generated_add_log:
  "n_generated (add_log w evs) = n_generated w + length (filter is_generate evs)"
  by (simp add: n_generated_def add_log_def)

lemma summarize_chunks_run:
  "summarize_chunks e chunks w = (r, w') \<Longrightarrow>
     files w' = files w
   \<and> (\<exists>k\<le>length chunks. log w' = log w @ map (\<lambda>c. Generate_Content (summarize_prompt c)) (take k chunks))
   \<and> (\<forall>ss. r = Inr ss \<longrightarrow>
          length ss = length chunks
        \<and> log w' = log w @ map (\<lambda>c. Generate_Content (summarize_prompt c)) chunks
        \<and> (\<forall>i<length chunks. reply e (n_generated w + i) (summarize_prompt (chunks ! i)) = Inr (ss ! i)))"
proof (induction chunks arbitrary: w r w')
  case Nil
  then show ?case by (auto simp: ret_def)
next
  case (Cons c cs)
  let ?w1 = "w\<lparr>log := log w @ [Generate_Content (summarize_prompt c)]\<rparr>"
  show ?case
  proof (cases "reply e (n_generated w) (summarize_prompt c)")
    case (Inl err)
    with Cons.prems have "r = Inl err" "w' = ?w1"
      by (auto simp: bind_def summarize_chunk_def generate_content_def)
    then show ?thesis
      by (auto intro!: exI [of _ 1])
  next
    case (Inr s)
    obtain r1 w1 where run1: "summarize_chunks e cs ?w1 = (r1, w1)"
      by (cases "summarize_chunks e cs ?w1")
    note ih = Cons.IH [OF run1]
    from Cons.prems Inr run1 have w': "w' = w1"
      and r: "r = (case r1 of Inl err \<Rightarrow> Inl err | Inr ss \<Rightarrow> Inr (s # ss))"
      by (auto simp: bind_def ret_def summarize_chunk_def generate_content_def split: sum.splits)
    from ih obtain k where k: "k \<le> length cs"
      "log w1 = log ?w1 @ map (\<lambda>c. Generate_Content (summarize_prompt c)) (take k cs)"
      by blast
    have a: "files w' = files w" using ih w' by simp
    have b: "\<exists>k\<le>length (c # cs). log w' = log w @ map (\<lambda>c. Generate_Content (summarize_prompt c)) (take k (c # cs))"
      using k w' by (intro exI [of _ "Suc k"]) simp
    have c: "\<forall>ss. r = Inr ss \<longrightarrow>
          length ss = length (c # cs)
        \<and> log w' = log w @ map (\<lambda>c. Generate_Content (summarize_prompt c)) (c # cs)
        \<and> (\<forall>i<length (c # cs). reply e (n_generated w + i) (summarize_prompt ((c # cs) ! i)) = Inr (ss ! i))"
    proof (intro allI impI)
      fix ss assume "r = Inr ss"
      with r obtain ss1 where ss1: "r1 = Inr ss1" "ss = s # ss1"
        by (auto split: sum.splits)
      from ih ss1 have l: "length ss1 = length cs"
        and lg: "log w1 = log ?w1 @ map (\<lambda>c. Generate_Content (summarize_prompt c)) cs"
        and rp: "\<forall>i<length cs. reply e (n_generated ?w1 + i) (summarize_prompt (cs ! i)) = Inr (ss1 ! i)"
        by auto
      have n1: "n_generated ?w1 = Suc (n_generated w)"
        by (simp add: n_generated_def is_generate_def)
      show "length ss = length (c # cs)
        \<and> log w' = log w @ map (\<lambda>c. Generate_Content (summarize_prompt c)) (c # cs)
        \<and> (\<forall>i<length (c # cs). reply e (n_generated w + i) (summarize_prompt ((c # cs) ! i)) = Inr (ss ! i))"
      proof (intro conjI allI impI)
        show "length ss = length (c # cs)" using l ss1 by simp
        show "log w' = log w @ map (\<lambda>c. Generate_Content (summarize_prompt c)) (c # cs)"
          using lg w' by simp
        fix i assume "i < length (c # cs)"
        then show "reply e (n_generated w + i) (summarize_prompt ((c # cs) ! i)) = Inr (ss ! i)"
          using rp Inr ss1 n1 by (cases i) auto
      qed
    qed
    from a b c show ?thesis by blast
  qed
qed

lemma process_miss:
  assumes "pdf_text e pdf_path = Inr raw_text"
      and "load_existing_chunk_summaries (cache_limits e) w cache_path = None"
  shows "process_legislation e pdf_path output_path w =
     (let cleaned = clean_text raw_text; chunks = chunks_of cleaned in
      case summarize_chunks e chunks (add_log w [Summarize_Chunks chunks]) of
        (Inl err, w1) \<Rightarrow> (Inl err, w1)
      | (Inr ss, w1) \<Rightarrow>
          let cs = JArray (map JString ss);
              w2 = add_log w1 [Export_Chunk_Summaries cs cache_path]
          in if files w1 cache_path = Some Blocked then (Inl OSError, w2)
             else finish e cleaned output_path cs
                    (w2\<lparr>files := (files w1)(cache_path \<mapsto>
                          File (json_dumps (JObject [(lit ''chunk_summaries'', cs)])))\<rparr>))"
proof -
  let ?chunks = "chunks_of (clean_text raw_text)"
  obtain r1 w1 where s: "summarize_chunks e ?chunks (add_log w [Summarize_Chunks ?chunks]) = (r1, w1)"
    by (cases "summarize_chunks e ?chunks (add_log w [Summarize_Chunks ?chunks])")
  then have s': "summarize_chunks e ?chunks (w\<lparr>log := log w @ [Summarize_Chunks ?chunks]\<rparr>) = (r1, w1)"
    by (simp add: add_log_def)
  show ?thesis
  proof (cases r1)
    case (Inl err)
    with assms s s' show ?thesis
      by (simp add: process_legislation_def bind_def ret_def Let_def log_event_def)
  next
    case (Inr ss)
    show ?thesis
    proof (cases "files w1 cache_path = Some Blocked")
      case True
      with assms s s' Inr show ?thesis
        by (simp add: process_legislation_def bind_def ret_def Let_def log_event_def
              export_chunk_summaries_def write_json_def add_log_def)
    next
      case False
      with assms s s' Inr show ?thesis
        by (simp add: process_legislation_def finish_def bind_def ret_def Let_def log_event_def
              export_chunk_summaries_def write_json_def add_log_def
            split: option.splits fs_entry.splits)
    qed
  qed
qed

lemma finish_first_event:
  "Combine_Summaries cs \<in> set (log (snd (finish e cleaned out cs w)))"
proof -
  obtain k where k: "log (snd (finish e cleaned out cs w)) = log w @ take k (finish_events cleaned out cs)"
    "1 \<le> k"
    using finish_log [of e cleaned out cs w] by blast
  then obtain k' where "k = Suc k'" by (cases k) auto
  with k(1) show ?thesis by (simp add: finish_events_def)
qed

text \<open>
  Claim C9, as amended. In a run that returns a result: when no cache is loaded, the chunk
  summaries that are fed to the combination and returned are one per chunk of the
  current document, in order, the summary at position \<open>i\<close> being the model's response
  to the prompt of chunk \<open>i\<close>; when a cache is loaded, what it holds is fed and returned
  as it is, whatever the chunks of the current document are.
\<close>

theorem summaries_follow_chunks:
  assumes "pdf_text e pdf_path = Inr raw_text"
      and "fst (process_legislation e pdf_path output_path w) = Inr res"
  shows "(load_existing_chunk_summaries (cache_limits e) w cache_path = None \<longrightarrow>
            (\<exists>summaries. chunk_summaries res = JArray (map JString summaries)
               \<and> length summaries = length (chunks_of (clean_text raw_text))
               \<and> (\<forall>i<length summaries.
                     reply e (n_generated w + i)
                       (summarize_prompt (chunks_of (clean_text raw_text) ! i))
                     = Inr (summaries ! i))
               \<and> Combine_Summaries (JArray (map JString summaries))
                   \<in> set (log (snd (process_legislation e pdf_path output_path w)))))
       \<and> (\<forall>cached. load_existing_chunk_summaries (cache_limits e) w cache_path = Some cached \<longrightarrow>
            chunk_summaries res = cached
          \<and> Combine_Summaries cached
              \<in> set (log (snd (process_legislation e pdf_path output_path w))))"
proof (intro conjI allI impI)
  assume miss: "load_existing_chunk_summaries (cache_limits e) w cache_path = None"
  let ?chunks = "chunks_of (clean_text raw_text)"
  let ?w0 = "add_log w [Summarize_Chunks ?chunks]"
  obtain r1 w1 where s: "summarize_chunks e ?chunks ?w0 = (r1, w1)"
    by (cases "summarize_chunks e ?chunks ?w0")
  note pm = process_miss [OF assms(1) miss, of output_path]
  from assms(2) pm s obtain ss where ss: "r1 = Inr ss"
    by (cases r1) (auto simp: Let_def)
  let ?cs = "JArray (map JString ss)"
  let ?w2 = "(add_log w1 [Export_Chunk_Summaries ?cs cache_path])\<lparr>files := (files w1)(cache_path \<mapsto>
                          File (json_dumps (JObject [(lit ''chunk_summaries'', ?cs)])))\<rparr>"
  from assms(2) pm s ss have nb: "files w1 cache_path \<noteq> Some Blocked"
    by (auto simp: Let_def split: if_splits)
  with pm s ss have run: "process_legislation e pdf_path output_path w
                          = finish e (clean_text raw_text) output_path ?cs ?w2"
    by (simp add: Let_def)
  from summarize_chunks_run [OF s] ss
  have l: "length ss = length ?chunks"
    and rp: "\<forall>i<length ?chunks. reply e (n_generated ?w0 + i) (summarize_prompt (?chunks ! i)) = Inr (ss ! i)"
    by auto
  have n0: "n_generated ?w0 = n_generated w"
    by (simp add: n_generated_add_log is_generate_def)
  have "chunk_summaries res = ?cs"
    using assms(2) unfolding run by (rule finish_result)
  moreover have "Combine_Summaries ?cs \<in> set (log (snd (process_legislation e pdf_path output_path w)))"
    unfolding run by (rule finish_first_event)
  ultimately show "\<exists>summaries. chunk_summaries res = JArray (map JString summaries)
               \<and> length summaries = length ?chunks
               \<and> (\<forall>i<length summaries.
                     reply e (n_generated w + i) (summarize_prompt (?chunks ! i))
                     = Inr (summaries ! i))
               \<and> Combine_Summaries (JArray (map JString summaries))
                   \<in> set (log (snd (process_legislation e pdf_path output_path w)))"
    using l rp n0 by (intro exI [of _ ss]) simp
next
  fix cached
  assume hit: "load_existing_chunk_summaries (cache_limits e) w cache_path = Some cached"
  note run = process_hit [OF assms(1) hit, of output_path]
  show "chunk_summaries res = cached"
    using assms(2) unfolding run by (rule finish_result)
  show "Combine_Summaries cached \<in> set (log (snd (process_legislation e pdf_path output_path w)))"
    unfolding run by (rule finish_first_event)
qed

lemma example_chunks:
  "chunks_of (clean_text (lit ''Section 1 - Definitions'')) = [lit ''Section 1 - Definitions'']"
  by code_simp

lemma example_responses:
  "sections_of_response default_limits (lit ''ok'') = Inr default_sections"
  "rule_checks_of_response default_limits (lit ''ok'') = Inr create_default_rule_checks"
  by code_simp+

lemma example_load_hit:
  "load_existing_chunk_summaries (cache_limits example_env) (world_with cache_ab) cache_path
   = Some (JArray [JString (lit ''a''), JString (lit ''b'')])"
proof -
  have "load_existing_chunk_summaries default_limits (world_with cache_ab) cache_path
        = Some (JArray [JString (lit ''a''), JString (lit ''b'')])"
    by code_simp
  then show ?thesis by (simp add: example_env_def)
qed

lemma example_run_hit:
  "fst (process_legislation example_env (lit ''act.pdf'') (lit ''output.json'') (world_with cache_ab))
   = Inr \<lparr>summary = lit ''ok'', sections = default_sections,
          rule_checks = create_default_rule_checks,
          chunk_summaries = JArray [JString (lit ''a''), JString (lit ''b'')]\<rparr>"
proof -
  have p: "pdf_text example_env (lit ''act.pdf'') = Inr (lit ''Section 1 - Definitions'')"
    by (simp add: example_env_def)
  have f: "files (world_with cache_ab) (lit ''output.json'') \<noteq> Some Blocked"
    by (simp add: world_with_def)
  show ?thesis
    unfolding process_hit [OF p example_load_hit]
    using f
    by (simp add: finish_eq Let_def join_parts_def as_string_def example_env_def example_responses)
qed

lemma example_run_miss:
  "fst (process_legislation example_env (lit ''act.pdf'') (lit ''output.json'') empty_world)
   = Inr \<lparr>summary = lit ''ok'', sections = default_sections,
          rule_checks = create_default_rule_checks,
          chunk_summaries = JArray [JString (lit ''ok'')]\<rparr>"
proof -
  have p: "pdf_text example_env (lit ''act.pdf'') = Inr (lit ''Section 1 - Definitions'')"
    by (simp add: example_env_def)
  have l: "load_existing_chunk_summaries (cache_limits example_env) empty_world cache_path = None"
    by (simp add: load_existing_chunk_summaries_def empty_world_def)
  show ?thesis
    unfolding process_miss [OF p l]
    by (simp add: example_chunks Let_def bind_def ret_def summarize_chunk_def generate_content_def
          add_log_def empty_world_def finish_eq join_parts_def as_string_def example_env_def
          example_responses)
qed

theorem cache_hit_skips_summarization_witness:
  "(files (world_with cache_ab) cache_path = Some (File cache_ab)
    \<and> json_loads (cache_limits example_env) cache_ab
        = Inr (JObject [(lit ''chunk_summaries'', JArray [JString (lit ''a''), JString (lit ''b'')])])
    \<and> dict_get [(lit ''chunk_summaries'', JArray [JString (lit ''a''), JString (lit ''b'')])]
          (lit ''chunk_summaries'')
        = Some (JArray [JString (lit ''a''), JString (lit ''b'')])
    \<and> pdf_text example_env (lit ''act.pdf'') = Inr (lit ''Section 1 - Definitions''))
   \<and> lit ''output.json'' \<noteq> cache_path
   \<and> (\<exists>k. 2 \<le> k \<and>
            log (snd (process_legislation example_env (lit ''act.pdf'') (lit ''output.json'')
                        (world_with cache_ab))) =
            log (world_with cache_ab) @ take k
              [Combine_Summaries (JArray [JString (lit ''a''), JString (lit ''b'')]),
               Generate_Content (combine_prompt (lit ''a'' @ [10, 10] @ lit ''b'')),
               Extract_Sections (clean_text (lit ''Section 1 - Definitions'')),
               Generate_Content (sections_prompt (clean_text (lit ''Section 1 - Definitions''))),
               Apply_Rule_Checks (clean_text (lit ''Section 1 - Definitions'')),
               Generate_Content (rules_prompt (clean_text (lit ''Section 1 - Definitions''))),
               Export_Json (lit ''output.json'')])
   \<and> files (snd (process_legislation example_env (lit ''act.pdf'') (lit ''output.json'')
                     (world_with cache_ab))) cache_path
       = files (world_with cache_ab) cache_path
   \<and> fst (process_legislation example_env (lit ''act.pdf'') (lit ''output.json'')
             (world_with cache_ab))
       = Inr \<lparr>summary = lit ''ok'', sections = default_sections,
              rule_checks = create_default_rule_checks,
              chunk_summaries = JArray [JString (lit ''a''), JString (lit ''b'')]\<rparr>
   \<and> chunk_summaries \<lparr>summary = lit ''ok'', sections = default_sections,
              rule_checks = create_default_rule_checks,
              chunk_summaries = JArray [JString (lit ''a''), JString (lit ''b'')]\<rparr>
       = JArray [JString (lit ''a''), JString (lit ''b'')]"
proof -
  have h1: "files (world_with cache_ab) cache_path = Some (File cache_ab)"
    by (simp add: world_with_def)
  have h2: "json_loads (cache_limits example_env) cache_ab
        = Inr (JObject [(lit ''chunk_summaries'', JArray [JString (lit ''a''), JString (lit ''b'')])])"
    by code_simp
  have h3: "dict_get [(lit ''chunk_summaries'', JArray [JString (lit ''a''), JString (lit ''b'')])]
          (lit ''chunk_summaries'')
        = Some (JArray [JString (lit ''a''), JString (lit ''b'')])"
    by simp
  have h4: "pdf_text example_env (lit ''act.pdf'') = Inr (lit ''Section 1 - Definitions'')"
    by (simp add: example_env_def)
  have h5: "lit ''output.json'' \<noteq> cache_path"
    by (simp add: cache_path_def lit_def)
  note c = cache_hit_skips_summarization [OF h1 h2 h3 h4, of "lit ''output.json''"]
  from c have c1: "\<exists>k. 2 \<le> k \<and>
            log (snd (process_legislation example_env (lit ''act.pdf'') (lit ''output.json'')
                        (world_with cache_ab))) =
            log (world_with cache_ab) @ take k
              [Combine_Summaries (JArray [JString (lit ''a''), JString (lit ''b'')]),
               Generate_Content (combine_prompt (lit ''a'' @ [10, 10] @ lit ''b'')),
               Extract_Sections (clean_text (lit ''Section 1 - Definitions'')),
               Generate_Content (sections_prompt (clean_text (lit ''Section 1 - Definitions''))),
               Apply_Rule_Checks (clean_text (lit ''Section 1 - Definitions'')),
               Generate_Content (rules_prompt (clean_text (lit ''Section 1 - Definitions''))),
               Export_Json (lit ''output.json'')]"
    by (rule conjunct1)
  from c h5 have c3: "files (snd (process_legislation example_env (lit ''act.pdf'')
                     (lit ''output.json'') (world_with cache_ab))) cache_path
       = files (world_with cache_ab) cache_path"
    by (elim conjE) (erule mp)
  show ?thesis
    by (intro conjI h1 h2 h3 h4 h5 c1 c3 example_run_hit) simp
qed

text \<open>
  Claim C9 as it is stated fails on a stale cache: the PDF gives a text of one chunk, the
  cache holds two summaries, and the run returns the two cached summaries.
\<close>

theorem stale_cache_counterexample:
  "pdf_text example_env (lit ''act.pdf'') = Inr (lit ''Section 1 - Definitions'')
   \<and> chunks_of (clean_text (lit ''Section 1 - Definitions'')) = [lit ''Section 1 - Definitions'']
   \<and> fst (process_legislation example_env (lit ''act.pdf'') (lit ''output.json'')
             (world_with cache_ab))
       = Inr \<lparr>summary = lit ''ok'', sections = default_sections,
              rule_checks = create_default_rule_checks,
              chunk_summaries = JArray [JString (lit ''a''), JString (lit ''b'')]\<rparr>"
  using example_chunks example_run_hit by (simp add: example_env_def)

theorem summaries_follow_chunks_witness:
  "(pdf_text example_env (lit ''act.pdf'') = Inr (lit ''Section 1 - Definitions'')
    \<and> fst (process_legislation example_env (lit ''act.pdf'') (lit ''output.json'') empty_world)
        = Inr \<lparr>summary = lit ''ok'', sections = default_sections,
               rule_checks = create_default_rule_checks,
               chunk_summaries = JArray [JString (lit ''ok'')]\<rparr>)
   \<and> load_existing_chunk_summaries (cache_limits example_env) empty_world cache_path = None
   \<and> (\<exists>summaries.
          chunk_summaries \<lparr>summary = lit ''ok'', sections = default_sections,
                           rule_checks = create_default_rule_checks,
                           chunk_summaries = JArray [JString (lit ''ok'')]\<rparr>
          = JArray (map JString summaries)
          \<and> length summaries = length (chunks_of (clean_text (lit ''Section 1 - Definitions'')))
          \<and> (\<forall>i<length summaries.
                reply example_env (n_generated empty_world + i)
                  (summarize_prompt (chunks_of (clean_text (lit ''Section 1 - Definitions'')) ! i))
                = Inr (summaries ! i))
          \<and> Combine_Summaries (JArray (map JString summaries))
              \<in> set (log (snd (process_legislation example_env (lit ''act.pdf'')
                                  (lit ''output.json'') empty_world))))"
proof -
  have h1: "pdf_text example_env (lit ''act.pdf'') = Inr (lit ''Section 1 - Definitions'')"
    by (simp add: example_env_def)
  note h2 = example_run_miss
  have l: "load_existing_chunk_summaries (cache_limits example_env) empty_world cache_path = None"
    by (simp add: load_existing_chunk_summaries_def empty_world_def)
  from summaries_follow_chunks [OF h1 h2] l
  have c: "\<exists>summaries.
          chunk_summaries \<lparr>summary = lit ''ok'', sections = default_sections,
                           rule_checks = create_default_rule_checks,
                           chunk_summaries = JArray [JString (lit ''ok'')]\<rparr>
          = JArray (map JString summaries)
          \<and> length summaries = length (chunks_of (clean_text (lit ''Section 1 - Definitions'')))
          \<and> (\<forall>i<length summaries.
                reply example_env (n_generated empty_world + i)
                  (summarize_prompt (chunks_of (clean_text (lit ''Section 1 - Definitions'')) ! i))
                = Inr (summaries ! i))
          \<and> Combine_Summaries (JArray (map JString summaries))
              \<in> set (log (snd (process_legislation example_env (lit ''act.pdf'')
                                  (lit ''output.json'') empty_world)))"
    by (elim conjE) (erule mp)
  show ?thesis by (intro conjI h1 h2 l c)
qed

end
